theory Spec2Isabelle
  imports Main "HOL-Library.Sublist" "HOL-Library.Multiset"
begin

section \<open>JavaScript strings\<close>

text \<open>
  A text that the translators receive or write is modelled as a \<^typ>\<open>string\<close>: one
  \<^typ>\<open>char\<close> per UTF-16 code unit, restricted to the code units below 256. The strings
  that \<^verbatim>\<open>JSON.parse\<close> builds are not restricted so, see the next section. The
  event-stream lexer reads its chunks through a \<^verbatim>\<open>TextDecoder\<close> in streaming mode, which
  keeps an incomplete byte sequence for the next chunk; a chunk below is therefore the
  text the decoder hands over for it.
\<close>

definition js_whitespace :: "char \<Rightarrow> bool" where
  "js_whitespace c \<longleftrightarrow>
     c \<in> set [CHR 0x09, CHR 0x0A, CHR 0x0B, CHR 0x0C, CHR 0x0D, CHR 0x20, CHR 0xA0]"

definition trimStart :: "string \<Rightarrow> string" where
  "trimStart s = dropWhile js_whitespace s"

definition trimEnd :: "string \<Rightarrow> string" where
  "trimEnd s = rev (dropWhile js_whitespace (rev s))"

definition trim :: "string \<Rightarrow> string" where
  "trim s = trimEnd (trimStart s)"

definition startsWith :: "'a list \<Rightarrow> 'a list \<Rightarrow> bool" where
  "startsWith s p = prefix p s"

definition endsWith :: "'a list \<Rightarrow> 'a list \<Rightarrow> bool" where
  "endsWith s p = suffix p s"

text \<open>\<^verbatim>\<open>s.indexOf(p)\<close>: the first position where \<open>p\<close> occurs, \<open>None\<close> for \<open>-1\<close>.\<close>

fun indexOf :: "string \<Rightarrow> string \<Rightarrow> nat option" where
  "indexOf [] p = (if p = [] then Some 0 else None)"
| "indexOf (c # cs) p =
     (if prefix p (c # cs) then Some 0 else map_option Suc (indexOf cs p))"

text \<open>
  \<^verbatim>\<open>s.split(sep)\<close> for a separator that is not empty (the source only splits on
  \<^verbatim>\<open>'\n'\<close>, \<^verbatim>\<open>'\n\n'\<close>, \<^verbatim>\<open>'", "result'\<close> and \<^verbatim>\<open>"</details>"\<close>): the pieces between the
  occurrences of the separator, found from left to right. The result is never empty.
\<close>

function js_split :: "string \<Rightarrow> string \<Rightarrow> string list" where
  "js_split s sep =
     (if sep = [] then [s]
      else case indexOf s sep of
             None \<Rightarrow> [s]
           | Some i \<Rightarrow> take i s # js_split (drop (i + length sep) s) sep)"
  by pat_completeness auto

lemma indexOf_bound: "indexOf s p = Some i \<Longrightarrow> i + length p \<le> length s"
proof (induction s arbitrary: i)
  case Nil
  then show ?case by (simp split: if_splits)
next
  case (Cons c cs)
  show ?case
  proof (cases "prefix p (c # cs)")
    case True
    with Cons.prems have "i = 0" by simp
    with True show ?thesis by (auto dest: prefix_length_le)
  next
    case False
    with Cons.prems obtain j where "indexOf cs p = Some j" "i = Suc j" by auto
    with Cons.IH show ?thesis by fastforce
  qed
qed

termination js_split
proof (relation "measure (\<lambda>(s, sep). length s)")
  show "wf (measure (\<lambda>(s, sep). length s))" by simp
next
  fix s sep :: string and i :: nat
  assume "sep \<noteq> []" and "indexOf s sep = Some i"
  then have "i + length sep \<le> length s" and "0 < length sep"
    by (simp_all add: indexOf_bound)
  then show "((drop (i + length sep) s, sep), (s, sep)) \<in> measure (\<lambda>(s, sep). length s)"
    by (cases sep) auto
qed

declare js_split.simps [simp del]

definition join :: "string \<Rightarrow> string list \<Rightarrow> string" where
  "join sep xs = (case xs of [] \<Rightarrow> [] | y # ys \<Rightarrow> y @ concat (map (\<lambda>z. sep @ z) ys))"

definition dquote :: char where
  "dquote = CHR 0x22"

definition backslash :: char where
  "backslash = CHR 0x5C"

definition is_digit :: "char \<Rightarrow> bool" where
  "is_digit c \<longleftrightarrow> c \<in> set ''0123456789''"

definition digit_val :: "char \<Rightarrow> nat" where
  "digit_val c = of_char c - (48::nat)"

text \<open>
  \<^verbatim>\<open>parseInt(s, 10)\<close>: leading white space, an optional sign, then the longest run of
  decimal digits; \<open>None\<close> stands for \<^verbatim>\<open>NaN\<close>, which is what \<^verbatim>\<open>parseInt\<close> returns (it
  never throws) when no digit is found. The value is the exact integer (a double rounds
  it beyond \<open>2^53\<close>).
\<close>

definition digits_val :: "string \<Rightarrow> nat" where
  "digits_val ds = foldl (\<lambda>n c. 10 * n + digit_val c) 0 ds"

definition parseInt :: "string \<Rightarrow> int option" where
  "parseInt s =
     (let t = trimStart s;
          (neg, u) = (case t of
                        [] \<Rightarrow> (False, [])
                      | c # cs \<Rightarrow> if c = CHR ''-'' then (True, cs)
                                 else if c = CHR ''+'' then (False, cs) else (False, t));
          ds = takeWhile is_digit u
      in if ds = [] then None
         else Some (if neg then - int (digits_val ds) else int (digits_val ds)))"

section \<open>JavaScript values and \<^verbatim>\<open>JSON.parse\<close>\<close>

text \<open>
  \<^verbatim>\<open>JSON.parse\<close> can bring any UTF-16 code unit into a string through an escape
  \<^verbatim>\<open>\uXXXX\<close>, so the parser works on lists of code units (integers) and the
  values can hold every JavaScript string. A text of the translators is turned into
  its code units by \<open>code_units\<close>.
\<close>

definition code_unit :: "char \<Rightarrow> int" where
  "code_unit c = of_char c"

definition code_units :: "string \<Rightarrow> int list" where
  "code_units s = map code_unit s"

definition narrow :: "int list \<Rightarrow> bool" where
  "narrow us = list_all (\<lambda>u. 0 \<le> u \<and> u < 256) us"

text \<open>
  The values the translators handle dynamically (\<^verbatim>\<open>any\<close> in the source). A number keeps
  the text of its literal: no claim computes with numbers, only their truthiness is read.
  A string whose code units are all below 256 is a \<open>JString\<close>; a string that holds a
  code unit from 256 on is a \<open>JWideString\<close> and carries the list of its code units.
  An object is the list of its members in source order, a later member with the same key
  wins, as in JavaScript; it is a \<open>JObject\<close> when all its keys are below 256 and a
  \<open>JWideObject\<close>, with every key as a list of code units, otherwise.
\<close>

datatype jsval =
    JUndefined
  | JNull
  | JBool bool
  | JNumber string
  | JString string
  | JWideString "int list"
  | JArray "jsval list"
  | JObject "(string \<times> jsval) list"
  | JWideObject "((int list) \<times> jsval) list"

text \<open>The string value with the given code units, and the object with the given members.\<close>

definition mk_string :: "int list \<Rightarrow> jsval" where
  "mk_string us = (if narrow us then JString (map char_of us) else JWideString us)"

definition mk_object :: "((int list) \<times> jsval) list \<Rightarrow> jsval" where
  "mk_object kvs =
     (if list_all (\<lambda>kv. narrow (fst kv)) kvs
      then JObject (map (\<lambda>kv. (map char_of (fst kv), snd kv)) kvs)
      else JWideObject kvs)"

text \<open>The code units of a value that is a string (\<^verbatim>\<open>typeof v === "string"\<close>), \<open>None\<close> otherwise.\<close>

fun string_units :: "jsval \<Rightarrow> int list option" where
  "string_units (JString s) = Some (code_units s)"
| "string_units (JWideString us) = Some us"
| "string_units v = None"

text \<open>
  Truthiness, as read by \<^verbatim>\<open>||\<close>, \<^verbatim>\<open>&&\<close>, \<^verbatim>\<open>!\<close> and \<^verbatim>\<open>if\<close>. A number literal is zero when its
  mantissa has no digit other than \<open>0\<close> (a literal that underflows to zero as a double is
  outside this model).
\<close>

fun truthy :: "jsval \<Rightarrow> bool" where
  "truthy JUndefined = False"
| "truthy JNull = False"
| "truthy (JBool b) = b"
| "truthy (JNumber l) =
     (\<exists>c \<in> set (takeWhile (\<lambda>c. c \<noteq> CHR ''e'' \<and> c \<noteq> CHR ''E'') l). is_digit c \<and> c \<noteq> CHR ''0'')"
| "truthy (JString s) = (s \<noteq> [])"
| "truthy (JWideString us) = (us \<noteq> [])"
| "truthy (JArray xs) = True"
| "truthy (JObject kvs) = True"
| "truthy (JWideObject kvs) = True"

text \<open>\<^verbatim>\<open>a || b\<close> on values.\<close>

definition js_or :: "jsval \<Rightarrow> jsval \<Rightarrow> jsval" where
  "js_or a b = (if truthy a then a else b)"

text \<open>
  Reading a property of a value that is neither \<^verbatim>\<open>null\<close> nor \<^verbatim>\<open>undefined\<close>: the member
  of an object, \<^verbatim>\<open>undefined\<close> for a missing member and for the property names the source
  reads (\<^verbatim>\<open>data\<close>, \<^verbatim>\<open>metadata\<close>, \<^verbatim>\<open>id\<close>, \<^verbatim>\<open>name\<close>, \<^verbatim>\<open>arguments\<close>, \<^verbatim>\<open>error\<close>, \<^verbatim>\<open>type\<close>,
  \<^verbatim>\<open>function\<close>) on a primitive or an array.
\<close>

fun js_get :: "jsval \<Rightarrow> string \<Rightarrow> jsval" where
  "js_get (JObject kvs) k = (case map_of (rev kvs) k of Some v \<Rightarrow> v | None \<Rightarrow> JUndefined)"
| "js_get (JWideObject kvs) k =
     (case map_of (rev kvs) (code_units k) of Some v \<Rightarrow> v | None \<Rightarrow> JUndefined)"
| "js_get v k = JUndefined"

definition json_ws :: "int \<Rightarrow> bool" where
  "json_ws u \<longleftrightarrow> u \<in> set [0x20, 0x09, 0x0A, 0x0D]"

definition skip_ws :: "int list \<Rightarrow> int list" where
  "skip_ws s = dropWhile json_ws s"

definition digit_unit :: "int \<Rightarrow> bool" where
  "digit_unit u \<longleftrightarrow> code_unit CHR ''0'' \<le> u \<and> u \<le> code_unit CHR ''9''"

definition hex_val :: "int \<Rightarrow> int option" where
  "hex_val u =
     (if code_unit CHR ''0'' \<le> u \<and> u \<le> code_unit CHR ''9'' then Some (u - code_unit CHR ''0'')
      else if code_unit CHR ''a'' \<le> u \<and> u \<le> code_unit CHR ''f''
      then Some (u - code_unit CHR ''a'' + 10)
      else if code_unit CHR ''A'' \<le> u \<and> u \<le> code_unit CHR ''F''
      then Some (u - code_unit CHR ''A'' + 10)
      else None)"

definition unescape :: "int \<Rightarrow> int option" where
  "unescape e =
     (if e = code_unit dquote then Some (code_unit dquote)
      else if e = code_unit backslash then Some (code_unit backslash)
      else if e = code_unit CHR ''/'' then Some (code_unit CHR ''/'')
      else if e = code_unit CHR ''b'' then Some 0x08
      else if e = code_unit CHR ''f'' then Some 0x0C
      else if e = code_unit CHR ''n'' then Some 0x0A
      else if e = code_unit CHR ''r'' then Some 0x0D
      else if e = code_unit CHR ''t'' then Some 0x09
      else None)"

text \<open>
  The rest of a JSON string literal after its opening quote: the code units of the
  string and what follows the closing quote. An escape \<^verbatim>\<open>\uXXXX\<close> stands for the code
  unit with that number, whatever it is (a surrogate too, as in JavaScript); a control
  character below \<open>0x20\<close> must be escaped.
\<close>

fun json_string :: "int list \<Rightarrow> int list \<Rightarrow> (int list \<times> int list) option" where
  "json_string acc [] = None"
| "json_string acc (c # cs) =
     (if c = code_unit dquote then Some (rev acc, cs)
      else if c = code_unit backslash then
        (case cs of
           [] \<Rightarrow> None
         | e # cs' \<Rightarrow>
             if e = code_unit CHR ''u'' then
               (case cs' of
                  h1 # h2 # h3 # h4 # rest \<Rightarrow>
                    (case (hex_val h1, hex_val h2, hex_val h3, hex_val h4) of
                       (Some a, Some b, Some c', Some d) \<Rightarrow>
                         json_string ((4096 * a + 256 * b + 16 * c' + d) # acc) rest
                     | _ \<Rightarrow> None)
                | _ \<Rightarrow> None)
             else (case unescape e of
                     None \<Rightarrow> None
                   | Some x \<Rightarrow> json_string (x # acc) cs'))
      else if c < 0x20 then None
      else json_string (c # acc) cs)"

text \<open>
  A JSON number literal at the head of the text:
  \<^verbatim>\<open>-? (0 | [1-9][0-9]*) (\.[0-9]+)? ([eE][+-]?[0-9]+)?\<close>; the literal and the rest.
\<close>

definition json_number :: "int list \<Rightarrow> (int list \<times> int list) option" where
  "json_number s =
     (let (sgn, s1) = (case s of
                         [] \<Rightarrow> ([], [])
                       | c # cs \<Rightarrow> if c = code_unit CHR ''-'' then ([c], cs) else ([], s));
          ip = (case s1 of
                  [] \<Rightarrow> []
                | c # cs \<Rightarrow> if c = code_unit CHR ''0'' then [c] else takeWhile digit_unit s1);
          s2 = drop (length ip) s1;
          fp = (case s2 of
                  [] \<Rightarrow> []
                | c # cs \<Rightarrow> if c = code_unit CHR ''.'' then c # takeWhile digit_unit cs else []);
          s3 = drop (length fp) s2;
          ep = (case s3 of
                  [] \<Rightarrow> []
                | c # cs \<Rightarrow>
                    if c = code_unit CHR ''e'' \<or> c = code_unit CHR ''E'' then
                      (case cs of
                         [] \<Rightarrow> [c]
                       | d # ds \<Rightarrow> if d = code_unit CHR ''+'' \<or> d = code_unit CHR ''-''
                                  then c # d # takeWhile digit_unit ds
                                  else c # takeWhile digit_unit cs)
                    else []);
          s4 = drop (length ep) s3
      in if ip = [] \<or> length fp = 1
            \<or> (ep \<noteq> [] \<and> \<not> digit_unit (last ep))
         then None
         else Some (sgn @ ip @ fp @ ep, s4))"

text \<open>
  The recursive descent over values, array elements and object members. The first
  argument bounds the depth of the calls: every call passes on a bound that is one
  less. A well-formed value of \<open>n\<close> code units needs a bound of \<open>n + 1\<close> at most (its
  \<open>i\<close>-th element or member is reached \<open>i + 1\<close> calls deep and lies behind \<open>i\<close> code
  units at least), which is the bound that \<open>JSON_parse_units\<close> passes; where the bound
  runs out the text is not well-formed and the result is \<open>None\<close> as it has to be.
\<close>

fun parse_value :: "nat \<Rightarrow> int list \<Rightarrow> (jsval \<times> int list) option"
and parse_elements :: "nat \<Rightarrow> jsval list \<Rightarrow> int list \<Rightarrow> (jsval list \<times> int list) option"
and parse_members ::
  "nat \<Rightarrow> ((int list) \<times> jsval) list \<Rightarrow> int list
   \<Rightarrow> (((int list) \<times> jsval) list \<times> int list) option"
where
  "parse_value 0 s = None"
| "parse_value (Suc n) s =
     (case skip_ws s of
        [] \<Rightarrow> None
      | c # cs \<Rightarrow>
          if c = code_unit CHR ''{'' then
            (case skip_ws cs of
               [] \<Rightarrow> None
             | d # r \<Rightarrow> if d = code_unit CHR ''}'' then Some (JObject [], r)
                        else map_option (\<lambda>(kvs, t). (mk_object kvs, t)) (parse_members n [] cs))
          else if c = code_unit CHR ''['' then
            (case skip_ws cs of
               [] \<Rightarrow> None
             | d # r \<Rightarrow> if d = code_unit CHR '']'' then Some (JArray [], r)
                        else map_option (\<lambda>(vs, t). (JArray vs, t)) (parse_elements n [] cs))
          else if c = code_unit dquote then
            map_option (\<lambda>(u, t). (mk_string u, t)) (json_string [] cs)
          else if prefix (code_units ''true'') (c # cs) then Some (JBool True, drop 4 (c # cs))
          else if prefix (code_units ''false'') (c # cs) then Some (JBool False, drop 5 (c # cs))
          else if prefix (code_units ''null'') (c # cs) then Some (JNull, drop 4 (c # cs))
          else map_option (\<lambda>(l, t). (JNumber (map char_of l), t)) (json_number (c # cs)))"
| "parse_elements 0 acc s = None"
| "parse_elements (Suc n) acc s =
     (case parse_value n s of
        None \<Rightarrow> None
      | Some (v, r) \<Rightarrow>
          (case skip_ws r of
             [] \<Rightarrow> None
           | d # t \<Rightarrow> if d = code_unit CHR '','' then parse_elements n (v # acc) t
                      else if d = code_unit CHR '']'' then Some (rev (v # acc), t)
                      else None))"
| "parse_members 0 acc s = None"
| "parse_members (Suc n) acc s =
     (case skip_ws s of
        [] \<Rightarrow> None
      | q # cs \<Rightarrow>
          if q \<noteq> code_unit dquote then None
          else
            (case json_string [] cs of
               None \<Rightarrow> None
             | Some (k, r) \<Rightarrow>
                 (case skip_ws r of
                    [] \<Rightarrow> None
                  | d # r' \<Rightarrow>
                      if d \<noteq> code_unit CHR '':'' then None
                      else
                        (case parse_value n r' of
                           None \<Rightarrow> None
                         | Some (v, r'') \<Rightarrow>
                             (case skip_ws r'' of
                                [] \<Rightarrow> None
                              | e # t \<Rightarrow>
                                  if e = code_unit CHR '','' then parse_members n ((k, v) # acc) t
                                  else if e = code_unit CHR ''}'' then Some (rev ((k, v) # acc), t)
                                  else None)))))"

text \<open>
  \<^verbatim>\<open>JSON.parse\<close> on the code units of a text, \<open>None\<close> when it throws \<^verbatim>\<open>SyntaxError\<close>;
  \<open>JSON_parse\<close> is the same on a text of the translators.
\<close>

definition JSON_parse_units :: "int list \<Rightarrow> jsval option" where
  "JSON_parse_units s =
     (case parse_value (Suc (length s)) s of
        None \<Rightarrow> None
      | Some (v, r) \<Rightarrow> if skip_ws r = [] then Some v else None)"

definition JSON_parse :: "string \<Rightarrow> jsval option" where
  "JSON_parse s = JSON_parse_units (code_units s)"

section \<open>The event-stream lexer (\<^verbatim>\<open>sse_parser.ts\<close>)\<close>

text \<open>
  \<^verbatim>\<open>SSEEvent\<close>: a data record carries \<^verbatim>\<open>data\<close>, \<^verbatim>\<open>raw\<close> and \<^verbatim>\<open>is_json\<close>; a retry record
  carries the number \<^verbatim>\<open>parseInt\<close> returned, \<open>None\<close> being \<^verbatim>\<open>NaN\<close>.
\<close>

datatype SSEEvent =
    DataEvent jsval string bool
  | EventEvent string
  | IdEvent string
  | RetryEvent "int option"

text \<open>The dispatch on the field name, lines 76 to 103 of \<^verbatim>\<open>iterEvents\<close>.\<close>

definition emit_field :: "string \<Rightarrow> string \<Rightarrow> SSEEvent option" where
  "emit_field field val =
     (if field = ''data'' then
        (if trim val = [] then None
         else case JSON_parse val of
                Some d \<Rightarrow> Some (DataEvent d val True)
              | None \<Rightarrow> Some (DataEvent (JString val) val False))
      else if field = ''event'' then Some (EventEvent val)
      else if field = ''id'' then Some (IdEvent val)
      else if field = ''retry'' then Some (RetryEvent (parseInt val))
      else None)"

text \<open>The body of the loop over the complete lines; \<open>None\<close> when nothing is yielded.\<close>

definition parse_line :: "string \<Rightarrow> SSEEvent option" where
  "parse_line line =
     (if trim line = [] then None
      else if startsWith line '':'' then None
      else case indexOf line '':'' of
             None \<Rightarrow> None
           | Some colonIndex \<Rightarrow>
               emit_field (trim (take colonIndex line)) (trim (drop (colonIndex + 1) line)))"

text \<open>
  The read loop of \<^verbatim>\<open>iterEvents\<close>: the buffer, then the chunks still to come. When the
  reader reports the end, the loop is left and the buffer is dropped.
\<close>

fun iterEvents_loop :: "string \<Rightarrow> string list \<Rightarrow> SSEEvent list" where
  "iterEvents_loop buffer [] = []"
| "iterEvents_loop buffer (chunk # chunks) =
     (let lines = js_split (buffer @ chunk) ''\<newline>''
      in List.map_filter parse_line (butlast lines) @ iterEvents_loop (last lines) chunks)"

definition iterEvents :: "string list \<Rightarrow> SSEEvent list" where
  "iterEvents chunks = iterEvents_loop [] chunks"

text \<open>
  \<^verbatim>\<open>iterJsonData\<close> without a validator, as both translators call it: the data records,
  a record that was not JSON being parsed once more.
\<close>

definition iterJsonData :: "string list \<Rightarrow> SSEEvent list" where
  "iterJsonData chunks =
     List.map_filter
       (\<lambda>e. case e of
               DataEvent d raw is_json \<Rightarrow>
                 if is_json then Some e
                 else (case JSON_parse raw of
                         Some d' \<Rightarrow> Some (DataEvent d' raw True)
                       | None \<Rightarrow> Some e)
             | _ \<Rightarrow> None)
       (iterEvents chunks)"

section \<open>Decoded payloads and the collaborators\<close>

text \<open>
  \<^verbatim>\<open>UpstreamData\<close> as both translators read it after \<^verbatim>\<open>UpstreamDataSchema.parse\<close> or the
  fallback that fills in defaults. The two text fields are strings, empty when absent;
  \<open>done_flag\<close> is the field \<^verbatim>\<open>done\<close>; \<open>finish_reason\<close> is the value of
  \<^verbatim>\<open>(data as any).choices?.[0]?.finish_reason\<close>; a field that is not set is \<open>JUndefined\<close>,
  a missing \<^verbatim>\<open>edit_index\<close> is \<open>None\<close>.
\<close>

record UpstreamDataData =
  delta_content :: string
  edit_content :: string
  phase :: string
  edit_index :: "int option"
  done_flag :: bool
  usage :: jsval
  data_error :: jsval
  inner :: jsval
  finish_reason :: jsval

record UpstreamData =
  type_field :: string
  data :: UpstreamDataData
  error :: jsval

text \<open>
  The collaborators that live outside the response handlers (\<^verbatim>\<open>helpers.ts\<close>, \<^verbatim>\<open>tools.ts\<close>)
  and the clock are parameters. \<open>Date_now env k\<close> is what \<^verbatim>\<open>Date.now()\<close> returns while the
  \<open>k\<close>-th tool-call block of a reassembly is processed; \<open>extractToolInvocations\<close> returns
  \<open>None\<close> for a falsy result and the array otherwise.
\<close>

record Env =
  transformThinkingContent :: "string \<Rightarrow> string"
  extractToolInvocations :: "string \<Rightarrow> jsval list option"
  removeToolJsonContent :: "string \<Rightarrow> string"
  Date_now :: "nat \<Rightarrow> nat"

text \<open>
  A JavaScript \<^verbatim>\<open>Map\<close>: its entries in insertion order. \<^verbatim>\<open>set\<close> on a key that is present
  replaces the value in place, otherwise the entry is appended.
\<close>

definition map_set :: "('k \<times> 'v) list \<Rightarrow> 'k \<Rightarrow> 'v \<Rightarrow> ('k \<times> 'v) list" where
  "map_set m k v =
     (if k \<in> fst ` set m then map (\<lambda>(k', v'). if k' = k then (k, v) else (k', v')) m
      else m @ [(k, v)])"

definition map_get :: "('k \<times> 'v) list \<Rightarrow> 'k \<Rightarrow> 'v option" where
  "map_get m k = map_of m k"

definition map_keys :: "('k \<times> 'v) list \<Rightarrow> 'k list" where
  "map_keys m = map fst m"

section \<open>What the translators emit\<close>

text \<open>
  An emitted event is modelled by the object that is serialised into it. The fields
  \<^verbatim>\<open>id\<close>, \<^verbatim>\<open>created\<close> and \<^verbatim>\<open>model\<close> of a chunk (clock and configuration) are left out.
  \<open>ToolCallsDelta index id type function\<close> is a \<^verbatim>\<open>tool_calls\<close> delta with one element.
\<close>

datatype Delta =
    EmptyDelta
  | RoleDelta string
  | ContentDelta string
  | ReasoningDelta string
  | ToolCallsDelta nat jsval jsval jsval

text \<open>
  \<open>Chunk delta finish_reason usage\<close> is \<^verbatim>\<open>data: <chunk>\n\n\<close>, \<open>DONE\<close> is the sentinel
  \<^verbatim>\<open>data: [DONE]\n\n\<close>, \<open>ErrorLine\<close> one of the two minimal error events.
\<close>

datatype SSEOut =
    Chunk Delta "string option" "jsval option"
  | DONE
  | ErrorLine string

definition createOpenAIResponseChunk :: "Delta \<Rightarrow> string option \<Rightarrow> SSEOut" where
  "createOpenAIResponseChunk delta finishReason = Chunk delta finishReason None"

definition handleUpstreamError :: "jsval \<Rightarrow> SSEOut list" where
  "handleUpstreamError err = [createOpenAIResponseChunk EmptyDelta (Some ''stop''), DONE]"

section \<open>The stream translator (\<^verbatim>\<open>StreamResponseHandler\<close>)\<close>

record StreamState =
  hasTools :: bool
  bufferedContent :: string
  toolCalls :: "jsval list option"
  streamEnded :: bool
  toolUsage :: jsval
  toolCallFragments :: "(int \<times> string) list"
  toolCallFinishReceived :: bool

definition StreamResponseHandler :: "bool \<Rightarrow> StreamState" where
  "StreamResponseHandler tools =
     \<lparr>hasTools = tools, bufferedContent = [], toolCalls = None, streamEnded = False,
      toolUsage = JNull, toolCallFragments = [], toolCallFinishReceived = False\<rparr>"

definition hasError :: "UpstreamData \<Rightarrow> bool" where
  "hasError u \<longleftrightarrow>
     truthy (js_or (js_or (error u) (data_error (data u)))
                   (if truthy (inner (data u)) then js_get (inner (data u)) ''error''
                    else inner (data u)))"

definition getError :: "UpstreamData \<Rightarrow> jsval" where
  "getError u =
     js_or (js_or (error u) (data_error (data u)))
           (js_or (if inner (data u) = JNull \<or> inner (data u) = JUndefined then JUndefined
                   else js_get (inner (data u)) ''error'')
                  JNull)"

definition extractEditContent :: "string \<Rightarrow> string" where
  "extractEditContent editContent =
     (case js_split editContent ''</details>'' of
        p0 # p1 # ps \<Rightarrow> p1
      | _ \<Rightarrow> [])"

text \<open>
  \<^verbatim>\<open>_processContent\<close>. \<open>sentInitialAnswer\<close> is a parameter passed by value: the assignment
  to it at line 338 changes the callee's copy only, so nothing about it is returned.
\<close>

definition processContent ::
  "Env \<Rightarrow> StreamState \<Rightarrow> UpstreamData \<Rightarrow> bool \<Rightarrow> SSEOut list \<times> StreamState" where
  "processContent env s u sentInitialAnswer =
     (let d = data u;
          content = (if delta_content d \<noteq> [] then delta_content d else edit_content d)
      in if content = [] \<and> phase d \<noteq> ''tool_call'' then ([], s)
         else if phase d = ''tool_call'' then
           (let s1 = (if \<not> hasTools s then s\<lparr>hasTools := True\<rparr> else s)
            in if edit_content d \<noteq> [] then
                 (let editIndex = (case edit_index d of Some i \<Rightarrow> i | None \<Rightarrow> 0)
                  in ([], s1\<lparr>toolCallFragments :=
                                map_set (toolCallFragments s1) editIndex (edit_content d)\<rparr>))
               else ([], s1))
         else
           (let s1 = (if phase d = ''answer'' \<and> truthy (usage d)
                      then s\<lparr>toolUsage := usage d\<rparr> else s);
                finishReason = (if phase d = ''answer'' then finish_reason d else JUndefined);
                s2 = (if finishReason = JString ''stop''
                      then s1\<lparr>toolCallFinishReceived := True\<rparr> else s1)
            in if truthy finishReason then ([], s2)
               else if phase d = ''other'' \<and> truthy (usage d) then
                 ([], s2\<lparr>toolUsage := usage d\<rparr>)
               else
                 (let processedContent =
                        (if phase d = ''thinking'' then transformThinkingContent env content
                         else content)
                  in if hasTools s2 then
                       (if phase d = ''answer''
                        then ([], s2\<lparr>bufferedContent := bufferedContent s2 @ processedContent\<rparr>)
                        else ([], s2))
                     else
                       ((if \<not> sentInitialAnswer \<and> edit_content d \<noteq> [] \<and> phase d = ''answer''
                         then (let extractedContent = extractEditContent (edit_content d)
                               in if extractedContent \<noteq> []
                                  then [createOpenAIResponseChunk (ContentDelta extractedContent) None]
                                  else [])
                         else [])
                        @ (if delta_content d \<noteq> [] \<and> processedContent \<noteq> [] then
                             (if phase d = ''thinking''
                              then [createOpenAIResponseChunk (ReasoningDelta processedContent) None]
                              else if phase d = ''answer''
                              then [createOpenAIResponseChunk (ContentDelta processedContent) None]
                              else [])
                           else []),
                        s2))))"

subsection \<open>Fragment reassembly\<close>

text \<open>
  Lines 387 to 408 (and 600 to 621): one step of the loop that glues the sorted fragments
  into blocks, on the pair of \<^verbatim>\<open>tempArray\<close> and \<^verbatim>\<open>temp_content\<close>.
\<close>

definition result_marker :: string where
  \<open>result_marker = ''", "result''\<close>

definition glue_step :: "string list \<times> string \<Rightarrow> string \<Rightarrow> string list \<times> string" where
  "glue_step st raw =
     (let tempArray = fst st; temp_content = snd st; content = trim raw
      in if startsWith content ''<glm_block'' then
           ((if temp_content \<noteq> [] then tempArray @ [temp_content] else tempArray), content)
         else if temp_content \<noteq> [] \<and> endsWith content ''</glm_block>'' then
           (tempArray,
            (case js_split temp_content result_marker of p0 # ps \<Rightarrow> p0 | [] \<Rightarrow> []) @ content)
         else (tempArray, temp_content))"

definition glue_blocks :: "string list \<Rightarrow> string list" where
  "glue_blocks contentArray =
     (let st = foldl glue_step ([], []) contentArray
      in if snd st \<noteq> [] then fst st @ [snd st] else fst st)"

definition glm_open :: string where
  \<open>glm_open = ''<glm_block view="">''\<close>

definition glm_close :: string where
  "glm_close = ''</glm_block>''"

text \<open>
  The captures of the global regular expression \<^verbatim>\<open><glm_block view="">([\s\S]*?)</glm_block>\<close>,
  from left to right: after an opening tag the capture runs to the first closing tag, and
  the search goes on behind it.
\<close>

function glm_block_matches :: "string \<Rightarrow> string list" where
  "glm_block_matches s =
     (case indexOf s glm_open of
        None \<Rightarrow> []
      | Some i \<Rightarrow>
          (case indexOf (drop (i + length glm_open) s) glm_close of
             None \<Rightarrow> []
           | Some j \<Rightarrow>
               take j (drop (i + length glm_open) s)
               # glm_block_matches (drop (j + length glm_close) (drop (i + length glm_open) s))))"
  by pat_completeness auto

termination glm_block_matches
proof (relation "measure length")
  show "wf (measure length)" by simp
next
  fix s :: string and i j :: nat
  assume "indexOf s glm_open = Some i"
    and "indexOf (drop (i + length glm_open) s) glm_close = Some j"
  then have "i + length glm_open \<le> length s" by (simp add: indexOf_bound)
  moreover have "length glm_open = 19" by (simp add: glm_open_def)
  ultimately show
    "(drop (j + length glm_close) (drop (i + length glm_open) s), s) \<in> measure length"
    by simp
qed

declare glm_block_matches.simps [simp del]

text \<open>
  \<^verbatim>\<open>s.replace(/<glm_block[\s\S]*?<\/glm_block>/g, '')\<close>: every stretch from an opening
  \<^verbatim>\<open><glm_block\<close> to the first closing tag behind it is removed.
\<close>

function strip_glm_blocks :: "string \<Rightarrow> string" where
  "strip_glm_blocks s =
     (case indexOf s ''<glm_block'' of
        None \<Rightarrow> s
      | Some i \<Rightarrow>
          (case indexOf (drop (i + 10) s) glm_close of
             None \<Rightarrow> s
           | Some j \<Rightarrow>
               take i s @ strip_glm_blocks (drop (j + length glm_close) (drop (i + 10) s))))"
  by pat_completeness auto

termination strip_glm_blocks
proof (relation "measure length")
  show "wf (measure length)" by simp
next
  fix s :: string and i j :: nat
  assume "indexOf s ''<glm_block'' = Some i"
  then have "i + length ''<glm_block'' \<le> length s" by (rule indexOf_bound)
  then show "(drop (j + length glm_close) (drop (i + 10) s), s) \<in> measure length"
    by simp
qed

declare strip_glm_blocks.simps [simp del]

text \<open>Decimal digits of a number, for the template literal that makes up a default id.\<close>

function show_nat :: "nat \<Rightarrow> string" where
  "show_nat n =
     (if n < 10 then [char_of (48 + n)]
      else show_nat (n div 10) @ [char_of (48 + n mod 10)])"
  by pat_completeness auto

termination show_nat
  by (relation "measure id") auto

declare show_nat.simps [simp del]

text \<open>
  Lines 423 to 438 (and 634 to 647, the same text): the arguments of one block, a
  string value. Text that starts with a double quote parses as a string or not at all,
  so the case of a parsed value that is not a string is never reached.
\<close>

definition finalArgs_of :: "jsval \<Rightarrow> jsval" where
  "finalArgs_of argsStr =
     (case string_units argsStr of
        None \<Rightarrow> JString ''{}''
      | Some a \<Rightarrow>
          if a \<noteq> [] \<and> a \<noteq> code_units ''{}'' then
            (if startsWith a [code_unit dquote] \<and> endsWith a [code_unit dquote] then
               (case JSON_parse_units a of
                  None \<Rightarrow> JString ''{}''
                | Some unescapedArgsStr \<Rightarrow>
                    (case string_units unescapedArgsStr of
                       None \<Rightarrow> JString ''{}''
                     | Some u \<Rightarrow>
                         (case JSON_parse_units u of
                            None \<Rightarrow> JString ''{}''
                          | Some v \<Rightarrow> unescapedArgsStr)))
             else
               (case JSON_parse_units a of
                  None \<Rightarrow> JString ''{}''
                | Some v \<Rightarrow> argsStr))
          else JString ''{}'')"

record ToolCall =
  tool_id :: jsval
  tool_name :: jsval
  tool_arguments :: jsval

text \<open>
  The body of the loop over the matches, lines 415 to 443: \<open>now\<close> is the clock, \<open>n\<close> the
  number of invocations resolved so far. \<open>None\<close> when the block is skipped: its text is
  not JSON, or it is \<^verbatim>\<open>null\<close> and reading \<^verbatim>\<open>parsed.data\<close> throws.
\<close>

definition metadata_of :: "jsval \<Rightarrow> jsval" where
  "metadata_of parsed =
     (let d = js_get parsed ''data''
      in js_or (js_or (if d = JNull \<or> d = JUndefined then JUndefined else js_get d ''metadata'')
                      (js_get parsed ''metadata''))
               (JObject []))"

definition block_tool :: "nat \<Rightarrow> nat \<Rightarrow> string \<Rightarrow> ToolCall option" where
  "block_tool now n blockContent =
     (case JSON_parse blockContent of
        None \<Rightarrow> None
      | Some parsed \<Rightarrow>
          if parsed = JNull then None
          else
            (let metadata = metadata_of parsed;
                 toolId = js_or (js_get metadata ''id'')
                            (JString (''call_'' @ show_nat now @ ''_'' @ show_nat (n + 1)));
                 toolName = js_or (js_get metadata ''name'') (JString ''unknown'');
                 argsStr = js_or (js_get metadata ''arguments'') (JString ''{}'')
             in Some \<lparr>tool_id = toolId, tool_name = toolName,
                      tool_arguments = finalArgs_of argsStr\<rparr>))"

fun scan_blocks :: "Env \<Rightarrow> nat \<Rightarrow> ToolCall list \<Rightarrow> string list \<Rightarrow> ToolCall list" where
  "scan_blocks env k acc [] = acc"
| "scan_blocks env k acc (b # bs) =
     scan_blocks env (Suc k)
       (case block_tool (Date_now env k) (length acc) b of
          Some t \<Rightarrow> acc @ [t]
        | None \<Rightarrow> acc)
       bs"

text \<open>Lines 382 to 408: the text of the first glued block of the fragment map.\<close>

definition fragments_fullContent :: "(int \<times> string) list \<Rightarrow> string" where
  "fragments_fullContent frags =
     (let allIndices = sort (map_keys frags);
          contentArray = map (\<lambda>index. case map_get frags index of Some c \<Rightarrow> c | None \<Rightarrow> [])
                             allIndices
      in join ''\<newline>'' (take 1 (glue_blocks contentArray)))"

text \<open>Lines 382 to 444: the invocations resolved from the fragment map.\<close>

definition resolveToolCalls :: "Env \<Rightarrow> (int \<times> string) list \<Rightarrow> ToolCall list" where
  "resolveToolCalls env frags =
     scan_blocks env 0 [] (glm_block_matches (fragments_fullContent frags))"

definition tool_call_chunks :: "nat \<Rightarrow> ToolCall \<Rightarrow> SSEOut list" where
  "tool_call_chunks i tool =
     [createOpenAIResponseChunk
        (ToolCallsDelta i (tool_id tool) (JString ''function'')
           (JObject [(''name'', tool_name tool), (''arguments'', JString [])])) None,
      createOpenAIResponseChunk
        (ToolCallsDelta i (tool_id tool) (JString ''function'')
           (JObject [(''arguments'', tool_arguments tool)])) None]"

definition processMultipleToolCalls :: "Env \<Rightarrow> StreamState \<Rightarrow> SSEOut list \<times> StreamState" where
  "processMultipleToolCalls env s =
     (if toolCallFragments s = [] then ([], s)
      else
        (let tcs = resolveToolCalls env (toolCallFragments s)
         in if tcs = [] then ([], s)
            else
              (concat (map (\<lambda>(i, tool). tool_call_chunks i tool) (zip [0..<length tcs] tcs))
               @ (if bufferedContent s \<noteq> [] \<and> trim (bufferedContent s) \<noteq> [] then
                    (let cleanContent = trim (strip_glm_blocks (bufferedContent s))
                     in if cleanContent \<noteq> [] then
                          [createOpenAIResponseChunk
                             (ContentDelta
                                (case js_split cleanContent ''\<newline>\<newline>'' of
                                   p0 # ps \<Rightarrow> p0
                                 | [] \<Rightarrow> []))
                             None]
                        else [])
                  else [])
               @ [Chunk EmptyDelta (Some ''tool_calls'')
                    (if truthy (toolUsage s) then Some (toolUsage s) else None),
                  DONE],
               s\<lparr>streamEnded := True\<rparr>)))"

text \<open>
  \<^verbatim>\<open>_sendEndChunk\<close>. The third component tells that the call threw: reading \<^verbatim>\<open>tc.id\<close> of
  an element that is \<^verbatim>\<open>null\<close> or \<^verbatim>\<open>undefined\<close> is a \<^verbatim>\<open>TypeError\<close>, and what was yielded
  before it stays yielded.
\<close>

fun end_tool_chunks :: "nat \<Rightarrow> jsval list \<Rightarrow> SSEOut list \<times> bool" where
  "end_tool_chunks i [] = ([], False)"
| "end_tool_chunks i (tc # tcs) =
     (if tc = JNull \<or> tc = JUndefined then ([], True)
      else
        (let r = end_tool_chunks (Suc i) tcs
         in (createOpenAIResponseChunk
               (ToolCallsDelta i (js_get tc ''id'')
                  (js_or (js_get tc ''type'') (JString ''function''))
                  (js_or (js_get tc ''function'') (JObject []))) None
             # fst r, snd r)))"

definition sendEndChunk :: "Env \<Rightarrow> StreamState \<Rightarrow> SSEOut list \<times> StreamState \<times> bool" where
  "sendEndChunk env s =
     (if streamEnded s then ([], s, False)
      else if hasTools s then
        (let s1 = s\<lparr>toolCalls := extractToolInvocations env (bufferedContent s)\<rparr>
         in case toolCalls s1 of
              Some tcs \<Rightarrow>
                (let r = end_tool_chunks 0 tcs
                 in if snd r then (fst r, s1, True)
                    else (fst r @ [createOpenAIResponseChunk EmptyDelta (Some ''tool_calls''), DONE],
                          s1\<lparr>streamEnded := True\<rparr>, False))
            | None \<Rightarrow>
                (let trimmedContent = removeToolJsonContent env (bufferedContent s1)
                 in ((if trimmedContent \<noteq> []
                      then [createOpenAIResponseChunk (ContentDelta trimmedContent) None]
                      else [])
                     @ [createOpenAIResponseChunk EmptyDelta (Some ''stop''), DONE],
                     s1\<lparr>streamEnded := True\<rparr>, False)))
      else ([createOpenAIResponseChunk EmptyDelta (Some ''stop''), DONE],
            s\<lparr>streamEnded := True\<rparr>, False))"

subsection \<open>The run\<close>

text \<open>
  What the upstream call gives: it fails, it answers with a status that is not a
  success, or it answers with a stream. A stream is the payloads that
  \<^verbatim>\<open>parser.iterJsonData()\<close> hands over, and whether the iteration then ends by a fault
  (the reader throws) instead of the end of the stream.
\<close>

datatype Upstream =
    CallFails
  | StatusNotOk
  | Stream "UpstreamData list" bool

text \<open>
  The loop of \<^verbatim>\<open>handle\<close>, lines 127 to 197. The third component of the result tells that
  the \<^verbatim>\<open>try\<close> block was left by an exception. The local \<^verbatim>\<open>sentInitialAnswer\<close> is never
  assigned in \<^verbatim>\<open>handle\<close>, so every call of \<^verbatim>\<open>_processContent\<close> receives \<^verbatim>\<open>false\<close>.
\<close>

fun handle_loop ::
  "Env \<Rightarrow> StreamState \<Rightarrow> UpstreamData list \<Rightarrow> bool \<Rightarrow> SSEOut list \<times> StreamState \<times> bool" where
  "handle_loop env s [] fault = ([], s, fault)"
| "handle_loop env s (u # us) fault =
     (if hasError u then
        (if \<not> streamEnded s then (handleUpstreamError (getError u), s\<lparr>streamEnded := True\<rparr>, False)
         else ([], s, False))
      else
        (let r1 = processContent env s u False; s1 = snd r1
         in if streamEnded s1 then (fst r1, s1, False)
            else if toolCallFinishReceived s1 \<and> phase (data u) \<noteq> ''tool_call'' \<and> hasTools s1
                    \<and> toolCallFragments s1 \<noteq> [] \<and> \<not> streamEnded s1 then
              (let r2 = processMultipleToolCalls env s1 in (fst r1 @ fst r2, snd r2, False))
            else if (done_flag (data u) \<or> phase (data u) = ''done'') \<and> \<not> streamEnded s1 then
              (if hasTools s1 \<and> toolCallFragments s1 \<noteq> [] then
                 (let r2 = processMultipleToolCalls env s1 in (fst r1 @ fst r2, snd r2, False))
               else
                 (let r2 = sendEndChunk env s1
                  in if snd (snd r2) then (fst r1 @ fst r2, fst (snd r2), True)
                     else (fst r1 @ fst r2, (fst (snd r2))\<lparr>streamEnded := True\<rparr>, False)))
            else
              (let r3 = handle_loop env s1 us fault
               in (fst r1 @ fst r3, snd r3))))"

text \<open>
  \<^verbatim>\<open>StreamResponseHandler.handle\<close> on a new handler: everything the generator yields, and
  the state it leaves. The \<^verbatim>\<open>catch\<close> block closes the stream if it is still open, the
  \<^verbatim>\<open>finally\<close> block marks it as ended.
\<close>

definition handle :: "Env \<Rightarrow> bool \<Rightarrow> Upstream \<Rightarrow> SSEOut list \<times> StreamState" where
  "handle env tools up =
     (case up of
        CallFails \<Rightarrow> ([ErrorLine ''Failed to call upstream''], StreamResponseHandler tools)
      | StatusNotOk \<Rightarrow> ([ErrorLine ''Upstream error''], StreamResponseHandler tools)
      | Stream us fault \<Rightarrow>
          (let r = handle_loop env (StreamResponseHandler tools) us fault;
               s = fst (snd r);
               caught = (if snd (snd r) \<and> \<not> streamEnded s
                         then [createOpenAIResponseChunk EmptyDelta (Some ''stop''), DONE]
                         else [])
           in (createOpenAIResponseChunk (RoleDelta ''assistant'') None # fst r @ caught,
               s\<lparr>streamEnded := True\<rparr>)))"

section \<open>The aggregate translator (\<^verbatim>\<open>NonStreamResponseHandler\<close>)\<close>

text \<open>
  The tool ids are values; \<^verbatim>\<open>includes\<close> and the two maps compare them structurally here
  (JavaScript compares an id that is an array or an object by reference).
\<close>

record NonStreamState =
  ns_hasTools :: bool
  nsToolOrder :: "jsval list"
  nsToolNames :: "(jsval \<times> jsval) list"
  nsToolArgs :: "(jsval \<times> jsval) list"
  nsUsage :: jsval
  nsToolCallFragments :: "(int \<times> string) list"
  nsToolCallFinishReceived :: bool

definition NonStreamResponseHandler :: "bool \<Rightarrow> NonStreamState" where
  "NonStreamResponseHandler tools =
     \<lparr>ns_hasTools = tools, nsToolOrder = [], nsToolNames = [], nsToolArgs = [],
      nsUsage = JNull, nsToolCallFragments = [], nsToolCallFinishReceived = False\<rparr>"

fun ns_scan_blocks :: "Env \<Rightarrow> nat \<Rightarrow> NonStreamState \<Rightarrow> string list \<Rightarrow> NonStreamState" where
  "ns_scan_blocks env k s [] = s"
| "ns_scan_blocks env k s (b # bs) =
     ns_scan_blocks env (Suc k)
       (case block_tool (Date_now env k) (length (nsToolOrder s)) b of
          Some t \<Rightarrow>
            if tool_id t \<notin> set (nsToolOrder s) then
              s\<lparr>nsToolOrder := nsToolOrder s @ [tool_id t],
                nsToolNames := map_set (nsToolNames s) (tool_id t) (tool_name t),
                nsToolArgs := map_set (nsToolArgs s) (tool_id t) (tool_arguments t)\<rparr>
            else s
        | None \<Rightarrow> s)
       bs"

definition processNonStreamMultipleToolCalls :: "Env \<Rightarrow> NonStreamState \<Rightarrow> NonStreamState" where
  "processNonStreamMultipleToolCalls env s =
     (if nsToolCallFragments s = [] then s
      else ns_scan_blocks env 0 s
             (glm_block_matches (fragments_fullContent (nsToolCallFragments s))))"

text \<open>
  The loop of \<^verbatim>\<open>handle\<close>, lines 819 to 928, on the state, the array \<^verbatim>\<open>fullContent\<close> and the
  payloads to come; \<open>None\<close> when the iteration throws, which nothing in \<^verbatim>\<open>handle\<close> catches.
\<close>

fun ns_loop ::
  "Env \<Rightarrow> NonStreamState \<Rightarrow> string list \<Rightarrow> UpstreamData list \<Rightarrow> bool
   \<Rightarrow> (string list \<times> NonStreamState) option" where
  "ns_loop env s fullContent [] fault = (if fault then None else Some (fullContent, s))"
| "ns_loop env s fullContent (u # us) fault =
     (let d = data u
      in if ns_hasTools s \<and> phase d = ''tool_call'' \<and> edit_content d \<noteq> [] then
           (let editIndex = (case edit_index d of Some i \<Rightarrow> i | None \<Rightarrow> 0)
            in ns_loop env
                 (s\<lparr>nsToolCallFragments :=
                      map_set (nsToolCallFragments s) editIndex (edit_content d)\<rparr>)
                 fullContent us fault)
         else
           (let s1 = (if phase d = ''answer'' \<and> truthy (usage d)
                      then s\<lparr>nsUsage := usage d\<rparr> else s);
                finishReason = (if phase d = ''answer'' then finish_reason d else JUndefined);
                s2 = (if finishReason = JString ''stop''
                      then s1\<lparr>nsToolCallFinishReceived := True\<rparr> else s1)
            in if truthy finishReason then ns_loop env s2 fullContent us fault
               else if phase d = ''other'' \<and> truthy (usage d) then
                 ns_loop env (s2\<lparr>nsUsage := usage d\<rparr>) fullContent us fault
               else
                 (let content = (if phase d = ''thinking''
                                 then transformThinkingContent env (delta_content d)
                                 else delta_content d);
                      fullContent1 = (if delta_content d \<noteq> [] \<and> content \<noteq> []
                                      then fullContent @ [content] else fullContent);
                      s3 = (if nsToolCallFinishReceived s2 \<and> phase d \<noteq> ''tool_call''
                               \<and> ns_hasTools s2 \<and> nsToolCallFragments s2 \<noteq> []
                            then processNonStreamMultipleToolCalls env s2 else s2)
                  in if done_flag d \<or> phase d = ''done'' then Some (fullContent1, s3)
                     else ns_loop env s3 fullContent1 us fault)))"

text \<open>
  The final document: the content and the tool calls of its single message (\<open>None\<close> for
  \<^verbatim>\<open>null\<close>), the finish reason and the usage block.
\<close>

record OutputDocument =
  message_content :: "string option"
  message_tool_calls :: "ToolCall list option"
  doc_finish_reason :: string
  doc_usage :: jsval

datatype Response =
    ErrorResponse nat string
  | DocumentResponse nat OutputDocument

definition zero_usage :: jsval where
  "zero_usage =
     JObject [(''prompt_tokens'', JNumber ''0''), (''completion_tokens'', JNumber ''0''),
              (''total_tokens'', JNumber ''0'')]"

text \<open>
  Lines 933 to 1005: from the collected state to the document. The arguments stored
  for an id are a string value, as \<open>finalArgs_of\<close> returns it.
\<close>

definition build_document :: "Env \<Rightarrow> string list \<Rightarrow> NonStreamState \<Rightarrow> OutputDocument" where
  "build_document env fullContent s0 =
     (let finalContent = concat fullContent;
          s = (if nsToolCallFinishReceived s0 \<and> ns_hasTools s0 \<and> nsToolCallFragments s0 \<noteq> []
                  \<and> nsToolOrder s0 = []
               then processNonStreamMultipleToolCalls env s0 else s0);
          messageContent0 =
            (if ns_hasTools s \<and> nsToolOrder s \<noteq> [] then
               (let cleanContent = trim (strip_glm_blocks finalContent)
                in if cleanContent \<noteq> [] then Some cleanContent else None)
             else Some finalContent)
      in if ns_hasTools s \<and> nsToolOrder s \<noteq> [] then
           \<lparr>message_content = None,
            message_tool_calls =
              Some (map (\<lambda>toolId.
                      (let args0 = js_or (case map_get (nsToolArgs s) toolId of
                                            Some a \<Rightarrow> a
                                          | None \<Rightarrow> JUndefined)
                                         (JString ''{}'');
                           args = (case string_units args0 of
                                     None \<Rightarrow> JString ''{}''
                                   | Some us \<Rightarrow>
                                       (case JSON_parse_units us of
                                          Some v \<Rightarrow> args0
                                        | None \<Rightarrow> JString ''{}''))
                       in \<lparr>tool_id = toolId,
                           tool_name = js_or (case map_get (nsToolNames s) toolId of
                                                Some n \<Rightarrow> n
                                              | None \<Rightarrow> JUndefined)
                                             (JString ''unknown''),
                           tool_arguments = args\<rparr>))
                    (nsToolOrder s)),
            doc_finish_reason = ''tool_calls'',
            doc_usage = js_or (nsUsage s) zero_usage\<rparr>
         else
           \<lparr>message_content = messageContent0,
            message_tool_calls = None,
            doc_finish_reason = ''stop'',
            doc_usage = js_or (nsUsage s) zero_usage\<rparr>)"

text \<open>
  \<^verbatim>\<open>NonStreamResponseHandler.handle\<close> on a new handler; \<open>None\<close> when the promise is
  rejected by a fault of the iteration.
\<close>

definition ns_handle :: "Env \<Rightarrow> bool \<Rightarrow> Upstream \<Rightarrow> Response option" where
  "ns_handle env tools up =
     (case up of
        CallFails \<Rightarrow> Some (ErrorResponse 502 ''Failed to call upstream'')
      | StatusNotOk \<Rightarrow> Some (ErrorResponse 502 ''Upstream error'')
      | Stream us fault \<Rightarrow>
          (case ns_loop env (NonStreamResponseHandler tools) [] us fault of
             None \<Rightarrow> None
           | Some (fullContent, s) \<Rightarrow>
               Some (DocumentResponse 200 (build_document env fullContent s))))"

section \<open>Inputs for the concrete instances\<close>

text \<open>
  Collaborators that leave the text as it is and find no inline tool call, and payloads
  with one phase, one \<^verbatim>\<open>delta_content\<close> and one \<^verbatim>\<open>edit_content\<close>.
\<close>

definition example_env :: Env where
  "example_env =
     \<lparr>transformThinkingContent = (\<lambda>s. s), extractToolInvocations = (\<lambda>s. None),
      removeToolJsonContent = (\<lambda>s. s), Date_now = (\<lambda>k. 0)\<rparr>"

definition plain_payload :: "string \<Rightarrow> string \<Rightarrow> string \<Rightarrow> UpstreamData" where
  "plain_payload ph dc ec =
     \<lparr>type_field = ''chat:completion'',
      data = \<lparr>delta_content = dc, edit_content = ec, phase = ph, edit_index = None,
              done_flag = False, usage = JUndefined, data_error = JUndefined,
              inner = JUndefined, finish_reason = JUndefined\<rparr>,
      error = JUndefined\<rparr>"

definition done_payload :: UpstreamData where
  "done_payload =
     \<lparr>type_field = ''chat:completion'',
      data = \<lparr>delta_content = [], edit_content = [], phase = ''done'', edit_index = None,
              done_flag = True, usage = JUndefined, data_error = JUndefined,
              inner = JUndefined, finish_reason = JUndefined\<rparr>,
      error = JUndefined\<rparr>"

definition error_payload :: UpstreamData where
  "error_payload =
     \<lparr>type_field = ''chat:completion'',
      data = \<lparr>delta_content = [], edit_content = [], phase = ''other'', edit_index = None,
              done_flag = False, usage = JUndefined, data_error = JUndefined,
              inner = JUndefined, finish_reason = JUndefined\<rparr>,
      error = JObject [(''detail'', JString ''overloaded''), (''code'', JNumber ''500'')]\<rparr>"

section \<open>Notions used in the properties\<close>

text \<open>
  A terminal item is a chunk with a finish reason or the sentinel. A run is closed once
  when its output ends with one finish chunk followed by the sentinel and holds no other
  terminal item.
\<close>

fun is_terminal :: "SSEOut \<Rightarrow> bool" where
  "is_terminal (Chunk d fr u) = (fr \<noteq> None)"
| "is_terminal DONE = True"
| "is_terminal (ErrorLine e) = False"

definition terminals :: "SSEOut list \<Rightarrow> SSEOut list" where
  "terminals out = filter is_terminal out"

definition closed_once :: "SSEOut list \<Rightarrow> bool" where
  "closed_once out \<longleftrightarrow>
     (\<exists>pre r u. out = pre @ [Chunk EmptyDelta (Some r) u, DONE] \<and> terminals pre = [])"

text \<open>The text of a payload, line 249 of \<^verbatim>\<open>_processContent\<close>.\<close>

definition payload_content :: "UpstreamData \<Rightarrow> string" where
  "payload_content u =
     (if delta_content (data u) \<noteq> [] then delta_content (data u) else edit_content (data u))"

text \<open>
  A payload of phase \<^verbatim>\<open>tool_call\<close> that carries the fragment \<open>(i, t)\<close>, and a run that
  is fed the fragments of a list, one payload each, through \<^verbatim>\<open>_processContent\<close>.
\<close>

definition tool_call_payload :: "int \<Rightarrow> string \<Rightarrow> UpstreamData" where
  "tool_call_payload i t =
     \<lparr>type_field = ''chat:completion'',
      data = \<lparr>delta_content = [], edit_content = t, phase = ''tool_call'', edit_index = Some i,
              done_flag = False, usage = JUndefined, data_error = JUndefined,
              inner = JUndefined, finish_reason = JUndefined\<rparr>,
      error = JUndefined\<rparr>"

definition feed_fragments :: "Env \<Rightarrow> StreamState \<Rightarrow> (int \<times> string) list \<Rightarrow> StreamState" where
  "feed_fragments env s fs =
     foldl (\<lambda>s (i, t). snd (processContent env s (tool_call_payload i t) False)) s fs"

text \<open>
  Reassembly in the words of the specification (section 4.4, steps 1 to 5): sort the
  fragments by index, glue the sorted texts into blocks, keep the first block, resolve
  every tool-call block in it.
\<close>

definition reassemble_sorted :: "Env \<Rightarrow> (int \<times> string) list \<Rightarrow> ToolCall list" where
  "reassemble_sorted env fs =
     scan_blocks env 0 []
       (glm_block_matches (join ''\<newline>'' (take 1 (glue_blocks (map snd (sort_key fst fs))))))"

text \<open>What one tool-call payload does to the fragment map: a fragment without text is not stored.\<close>

definition store_fragment :: "(int \<times> string) list \<Rightarrow> int \<times> string \<Rightarrow> (int \<times> string) list" where
  "store_fragment m f = (if snd f \<noteq> [] then map_set m (fst f) (snd f) else m)"

text \<open>The quoted form that lines 427 and 637 test for.\<close>

definition quoted :: "int list \<Rightarrow> bool" where
  "quoted a \<longleftrightarrow> startsWith a [code_unit dquote] \<and> endsWith a [code_unit dquote]"

text \<open>
  The arguments \<^verbatim>\<open>{"x":1}\<close>, plain and as an escaped JSON string, a block that carries
  them, and the same block cut into two fragments.
\<close>

definition plain_args :: string where
  \<open>plain_args = ''{"x":1}''\<close>

definition escaped_args :: string where
  \<open>escaped_args = ''"{'' @ [backslash] @ ''"x'' @ [backslash] @ ''":1}"''\<close>

definition example_block :: string where
  \<open>example_block = ''{"metadata":{"id":"call_1","name":"f","arguments":'' @ escaped_args @ ''}}''\<close>

text \<open>
  Arguments with the escape of a code unit beyond 255: the plain text
  \<^verbatim>\<open>{"x":"\u4e2d"}\<close>, the quoted text \<^verbatim>\<open>"{\"x\":\"\u4e2d\"}"\<close>, and the string that the
  quoted text unescapes to, which holds the code unit \<open>0x4E2D\<close> itself.
\<close>

definition wide_plain_args :: string where
  \<open>wide_plain_args = ''{"x":"'' @ [backslash] @ ''u4e2d"}''\<close>

definition wide_escaped_args :: string where
  \<open>wide_escaped_args =
     ''"{'' @ [backslash] @ ''"x'' @ [backslash] @ ''":'' @ [backslash] @ ''"''
     @ [backslash] @ ''u4e2d'' @ [backslash] @ ''"}"''\<close>

definition wide_unescaped_args :: "int list" where
  \<open>wide_unescaped_args = code_units ''{"x":"'' @ [0x4E2D] @ code_units ''"}''\<close>

text \<open>
  A run in tool mode, an answer payload that carries text together with the finish
  reason \<^verbatim>\<open>stop\<close>, and a payload of phase \<^verbatim>\<open>tool_call\<close> that carries an error.
\<close>

definition tool_mode_state :: StreamState where
  "tool_mode_state = (StreamResponseHandler False)\<lparr>hasTools := True\<rparr>"

definition finish_payload :: UpstreamData where
  "finish_payload =
     \<lparr>type_field = ''chat:completion'',
      data = \<lparr>delta_content = ''Hi'', edit_content = [], phase = ''answer'', edit_index = None,
              done_flag = False, usage = JUndefined, data_error = JUndefined,
              inner = JUndefined, finish_reason = JString ''stop''\<rparr>,
      error = JUndefined\<rparr>"

definition error_tool_call_payload :: UpstreamData where
  "error_tool_call_payload =
     \<lparr>type_field = ''chat:completion'',
      data = \<lparr>delta_content = [], edit_content = ''<glm_block'', phase = ''tool_call'',
              edit_index = Some 0, done_flag = False, usage = JUndefined,
              data_error = JUndefined, inner = JUndefined, finish_reason = JUndefined\<rparr>,
      error = JObject [(''detail'', JString ''overloaded''), (''code'', JNumber ''500'')]\<rparr>"

definition example_fragments :: "(int \<times> string) list" where
  \<open>example_fragments =
     [(0, ''<glm_block view="">{"metadata":{"id":"call_1","name":"f",''),
      (1, ''"arguments":'' @ escaped_args @ ''}}</glm_block>'')]\<close>


section \<open>Properties of the lexer\<close>

lemma js_split_not_Nil: "js_split s sep \<noteq> []"
  by (subst js_split.simps) (simp split: option.splits)

lemma js_split_char_Nil: "js_split [] [c] = [[]]"
  by (subst js_split.simps) simp

lemma js_split_char_Cons:
  "js_split (x # xs) [c] =
     (if x = c then [] # js_split xs [c]
      else (x # hd (js_split xs [c])) # tl (js_split xs [c]))"
proof (cases "x = c")
  case True
  then show ?thesis by (subst js_split.simps) simp
next
  case False
  then show ?thesis
    by (subst js_split.simps, subst (2 3) js_split.simps) (simp split: option.splits)
qed

text \<open>
  Splitting a text that arrives in two parts: the complete lines of the first part, then
  the lines of its last, unfinished piece continued by the second part.
\<close>

lemma js_split_append:
  "js_split (a @ b) [c] = butlast (js_split a [c]) @ js_split (last (js_split a [c]) @ b) [c]"
proof (induction a)
  case Nil
  show ?case by (simp add: js_split_char_Nil)
next
  case (Cons x a)
  obtain l ls where A: "js_split a [c] = l # ls"
    using js_split_not_Nil [of a "[c]"] by (cases "js_split a [c]") auto
  show ?case
  proof (cases "x = c")
    case True
    with Cons A show ?thesis by (simp add: js_split_char_Cons)
  next
    case False
    show ?thesis
    proof (cases ls)
      case Nil
      with False Cons A show ?thesis by (simp add: js_split_char_Cons)
    next
      case (Cons l' ls')
      with False Cons.IH A show ?thesis by (simp add: js_split_char_Cons)
    qed
  qed
qed

lemma js_split_no_sep: "c \<notin> set s \<Longrightarrow> js_split s [c] = [s]"
  by (induction s) (auto simp: js_split_char_Nil js_split_char_Cons)

lemma last_js_split_no_sep: "c \<notin> set (last (js_split s [c]))"
proof (induction s)
  case Nil
  show ?case by (simp add: js_split_char_Nil)
next
  case (Cons x s)
  obtain l ls where A: "js_split s [c] = l # ls"
    using js_split_not_Nil [of s "[c]"] by (cases "js_split s [c]") auto
  with Cons show ?case by (cases ls) (auto simp: js_split_char_Cons)
qed

lemma iterEvents_loop_eq:
  "CHR ''\<newline>'' \<notin> set buffer \<Longrightarrow>
   iterEvents_loop buffer chunks =
     List.map_filter parse_line (butlast (js_split (buffer @ concat chunks) ''\<newline>''))"
proof (induction chunks arbitrary: buffer)
  case Nil
  then show ?case by (simp add: js_split_no_sep map_filter_simps)
next
  case (Cons chunk chunks)
  let ?S = "js_split (buffer @ chunk) ''\<newline>''"
  have "CHR ''\<newline>'' \<notin> set (last ?S)" by (rule last_js_split_no_sep)
  from Cons.IH [OF this]
  have "iterEvents_loop buffer (chunk # chunks) =
        List.map_filter parse_line (butlast ?S) @
        List.map_filter parse_line (butlast (js_split (last ?S @ concat chunks) ''\<newline>''))"
    by (simp add: Let_def)
  also have "\<dots> = List.map_filter parse_line
       (butlast (butlast ?S @ js_split (last ?S @ concat chunks) ''\<newline>''))"
    by (simp add: butlast_append js_split_not_Nil map_filter_def)
  also have "butlast ?S @ js_split (last ?S @ concat chunks) ''\<newline>'' =
       js_split ((buffer @ chunk) @ concat chunks) ''\<newline>''"
    by (rule js_split_append [symmetric])
  finally show ?case by simp
qed

text \<open>
  Claim C2. However the text of the stream is cut into chunks, the lexer emits the
  records it emits when the whole text arrives as one chunk: the records of the lines
  that a line break ends, in order. The piece behind the last line break, a line not
  ended when the stream ends, yields nothing, and a line cut by a chunk boundary is
  read only as a whole.
\<close>

theorem iterEvents_rechunk:
  "iterEvents chunks = iterEvents [concat chunks] \<and>
   iterEvents chunks =
     List.map_filter parse_line (butlast (js_split (concat chunks) ''\<newline>''))"
  by (simp add: iterEvents_def iterEvents_loop_eq)

text \<open>
  An instance of C2: a data line cut inside its field name and inside its value, an
  event line cut before its line break, and an id line that is never ended.
\<close>

theorem iterEvents_rechunk_witness:
  \<open>iterEvents [''da'', ''ta: {"a"'', '':1}\<newline>event: e'', ''\<newline>id: 7''] =
     [DataEvent (JObject [(''a'', JNumber ''1'')]) ''{"a":1}'' True, EventEvent ''e'']\<close>
proof -
  have \<open>iterEvents [concat [''da'', ''ta: {"a"'', '':1}\<newline>event: e'', ''\<newline>id: 7'']] =
     [DataEvent (JObject [(''a'', JNumber ''1'')]) ''{"a":1}'' True, EventEvent ''e'']\<close>
    by code_simp
  with iterEvents_rechunk [of \<open>[''da'', ''ta: {"a"'', '':1}\<newline>event: e'', ''\<newline>id: 7'']\<close>]
  show ?thesis by simp
qed

text \<open>
  Claim C8, at the input \<^verbatim>\<open>retry: abc\<close>: \<^verbatim>\<open>parseInt\<close> returns \<^verbatim>\<open>NaN\<close> without throwing, the
  \<^verbatim>\<open>catch\<close> branch at line 100 is never entered, and a retry record that carries \<^verbatim>\<open>NaN\<close>
  is emitted where the claim has the line dropped.
\<close>

theorem invalid_retry_emitted:
  "parseInt ''abc'' = None \<and> iterEvents [''retry: abc\<newline>''] = [RetryEvent None]"
  by code_simp

text \<open>
  Claim C9 as it is stated fails at the line \<^verbatim>\<open>event: a \<close> (one space behind the
  \<^verbatim>\<open>a\<close>): the value left-trimmed only would be \<^verbatim>\<open>a \<close>, the record carries \<^verbatim>\<open>a\<close>.
\<close>

theorem value_right_trimmed:
  "trimStart '' a '' = ''a '' \<and> parse_line ''event: a '' = Some (EventEvent ''a'')
   \<and> parse_line ''event: a '' \<noteq> Some (EventEvent (trimStart '' a ''))"
  by code_simp

lemma indexOf_first_char:
  "c \<notin> set f \<Longrightarrow> indexOf (f @ c # v) [c] = Some (length f)"
  by (induction f) auto

lemma trimStart_ends:
  "trimStart s = [] \<or> \<not> js_whitespace (hd (trimStart s))"
  unfolding trimStart_def using hd_dropWhile [of js_whitespace s] by blast

lemma trimEnd_prefix: "prefix (trimEnd t) t"
proof -
  have "rev t = takeWhile js_whitespace (rev t) @ dropWhile js_whitespace (rev t)" by simp
  then have "t = rev (dropWhile js_whitespace (rev t)) @ rev (takeWhile js_whitespace (rev t))"
    by (metis rev_append rev_rev_ident)
  then show ?thesis unfolding trimEnd_def by (metis prefixI)
qed

lemma trim_ends:
  "trim s = [] \<or> (\<not> js_whitespace (hd (trim s)) \<and> \<not> js_whitespace (last (trim s)))"
proof (cases "trim s = []")
  case True
  then show ?thesis ..
next
  case False
  let ?t = "trimStart s"
  have ne: "trimEnd ?t \<noteq> []" using False by (simp add: trim_def)
  have "last (trimEnd ?t) = hd (dropWhile js_whitespace (rev ?t))"
    using ne by (simp add: trimEnd_def last_rev)
  moreover have "dropWhile js_whitespace (rev ?t) \<noteq> []"
    using ne by (simp add: trimEnd_def)
  ultimately have l: "\<not> js_whitespace (last (trimEnd ?t))"
    using hd_dropWhile [of js_whitespace "rev ?t"] by simp
  from trimEnd_prefix [of ?t] obtain zs where "?t = trimEnd ?t @ zs"
    by (auto simp: prefix_def)
  with ne have "hd (trimEnd ?t) = hd ?t" and "?t \<noteq> []"
    by (metis hd_append2, metis append_is_Nil_conv)
  with trimStart_ends [of s] have "\<not> js_whitespace (hd (trimEnd ?t))" by simp
  with l show ?thesis by (simp add: trim_def)
qed

lemma trim_not_Nil:
  assumes "x \<in> set s" "\<not> js_whitespace x"
  shows "trim s \<noteq> []"
proof -
  from assms have "x \<in> set (dropWhile js_whitespace s)"
    by (metis (mono_tags) UnE set_append set_takeWhileD takeWhile_dropWhile_id)
  then have "x \<in> set (rev (trimStart s))" by (simp add: trimStart_def)
  with assms(2) have "dropWhile js_whitespace (rev (trimStart s)) \<noteq> []"
    by (metis dropWhile_eq_Nil_conv)
  then show ?thesis by (simp add: trim_def trimEnd_def)
qed

text \<open>
  Claim C9, amended. A line \<open>f:v\<close> whose part \<open>f\<close> before the first colon is not empty is
  neither blank nor a comment; the lexer splits it at that colon and dispatches on the
  field \<open>f\<close> and the value \<open>v\<close>, both trimmed on both sides: the value that reaches a
  record neither starts nor ends with white space.
\<close>

theorem value_trimmed_both_sides:
  assumes "f \<noteq> []" and "CHR '':'' \<notin> set f"
  shows "parse_line (f @ CHR '':'' # v) = emit_field (trim f) (trim v)
         \<and> (trim v = [] \<or> (\<not> js_whitespace (hd (trim v)) \<and> \<not> js_whitespace (last (trim v))))"
proof -
  have "\<not> js_whitespace CHR '':''" by (simp add: js_whitespace_def)
  then have 1: "trim (f @ CHR '':'' # v) \<noteq> []"
    by (rule trim_not_Nil [rotated]) simp
  from assms have 2: "\<not> startsWith (f @ CHR '':'' # v) '':''"
    by (cases f) (auto simp: startsWith_def)
  have 3: "indexOf (f @ CHR '':'' # v) '':'' = Some (length f)"
    using assms(2) by (rule indexOf_first_char)
  from 1 2 3 have "parse_line (f @ CHR '':'' # v) = emit_field (trim f) (trim v)"
    by (simp add: parse_line_def)
  with trim_ends [of v] show ?thesis by blast
qed

text \<open>An instance of the amended C9: the line \<^verbatim>\<open>event: a \<close> yields the event \<^verbatim>\<open>a\<close>.\<close>

theorem value_trimmed_both_sides_witness:
  "''event'' \<noteq> [] \<and> CHR '':'' \<notin> set ''event''
   \<and> parse_line (''event'' @ CHR '':'' # '' a '') = Some (EventEvent ''a'')"
  using value_trimmed_both_sides [of "''event''" "'' a ''"]
  by (simp add: emit_field_def trim_def trimStart_def trimEnd_def js_whitespace_def)


section \<open>Properties of the stream translator\<close>

lemma terminals_simps [simp]:
  "terminals [] = []"
  "terminals (x # xs) = (if is_terminal x then x # terminals xs else terminals xs)"
  "terminals (xs @ ys) = terminals xs @ terminals ys"
  by (simp_all add: terminals_def)

lemma processContent_no_terminal:
  "terminals (fst (processContent env s u b)) = []"
  by (simp add: processContent_def Let_def createOpenAIResponseChunk_def)

lemma processContent_streamEnded:
  "streamEnded (snd (processContent env s u b)) = streamEnded s"
  by (simp add: processContent_def Let_def split: option.splits)

lemma tool_call_chunks_no_terminal:
  "terminals (concat (map (\<lambda>(i, tool). tool_call_chunks i tool) xs)) = []"
  by (induction xs) (auto simp: tool_call_chunks_def createOpenAIResponseChunk_def)

lemma processMultipleToolCalls_shape:
  "processMultipleToolCalls env s = ([], s) \<or>
   (\<exists>pre u. fst (processMultipleToolCalls env s) = pre @ [Chunk EmptyDelta (Some ''tool_calls'') u, DONE]
       \<and> terminals pre = [] \<and> streamEnded (snd (processMultipleToolCalls env s)))"
proof (cases "toolCallFragments s = [] \<or> resolveToolCalls env (toolCallFragments s) = []")
  case True
  then show ?thesis by (auto simp: processMultipleToolCalls_def Let_def)
next
  case False
  let ?tcs = "resolveToolCalls env (toolCallFragments s)"
  let ?pre = "concat (map (\<lambda>(i, tool). tool_call_chunks i tool) (zip [0..<length ?tcs] ?tcs))
               @ (if bufferedContent s \<noteq> [] \<and> trim (bufferedContent s) \<noteq> [] then
                    (let cleanContent = trim (strip_glm_blocks (bufferedContent s))
                     in if cleanContent \<noteq> [] then
                          [createOpenAIResponseChunk
                             (ContentDelta
                                (case js_split cleanContent ''\<newline>\<newline>'' of
                                   p0 # ps \<Rightarrow> p0
                                 | [] \<Rightarrow> []))
                             None]
                        else [])
                  else [])"
  have "terminals ?pre = []"
    by (simp add: tool_call_chunks_no_terminal createOpenAIResponseChunk_def Let_def)
  moreover from False have "fst (processMultipleToolCalls env s) =
      ?pre @ [Chunk EmptyDelta (Some ''tool_calls'')
                    (if truthy (toolUsage s) then Some (toolUsage s) else None), DONE]"
    by (simp add: processMultipleToolCalls_def Let_def)
  moreover from False have "streamEnded (snd (processMultipleToolCalls env s))"
    by (simp add: processMultipleToolCalls_def Let_def)
  ultimately show ?thesis by blast
qed

lemma end_tool_chunks_no_terminal: "terminals (fst (end_tool_chunks i tcs)) = []"
  by (induction i tcs rule: end_tool_chunks.induct)
     (simp_all add: Let_def createOpenAIResponseChunk_def)

lemma sendEndChunk_ended: "streamEnded s \<Longrightarrow> sendEndChunk env s = ([], s, False)"
  by (simp add: sendEndChunk_def)

lemma sendEndChunk_shape:
  "(snd (snd (sendEndChunk env s)) \<and> terminals (fst (sendEndChunk env s)) = []) \<or>
   (\<not> snd (snd (sendEndChunk env s)) \<and> terminals (fst (sendEndChunk env s)) = []
      \<and> streamEnded s) \<or>
   (\<not> snd (snd (sendEndChunk env s)) \<and>
     (\<exists>pre r. fst (sendEndChunk env s) = pre @ [Chunk EmptyDelta (Some r) None, DONE]
        \<and> terminals pre = []))"
proof (cases "streamEnded s")
  case True
  then show ?thesis by (simp add: sendEndChunk_def)
next
  case False
  show ?thesis
  proof (cases "hasTools s")
    case nt: False
    have "fst (sendEndChunk env s) = [] @ [Chunk EmptyDelta (Some ''stop'') None, DONE]"
      using False nt by (simp add: sendEndChunk_def createOpenAIResponseChunk_def)
    moreover have "\<not> snd (snd (sendEndChunk env s))"
      using False nt by (simp add: sendEndChunk_def)
    ultimately show ?thesis by (metis terminals_simps(1))
  next
    case t: True
    show ?thesis
    proof (cases "extractToolInvocations env (bufferedContent s)")
      case None
      let ?tc = "removeToolJsonContent env (bufferedContent s)"
      have "fst (sendEndChunk env s) =
          (if ?tc \<noteq> [] then [Chunk (ContentDelta ?tc) None None] else [])
          @ [Chunk EmptyDelta (Some ''stop'') None, DONE]"
        using False t None by (simp add: sendEndChunk_def createOpenAIResponseChunk_def Let_def)
      moreover have "terminals (if ?tc \<noteq> [] then [Chunk (ContentDelta ?tc) None None] else []) = []"
        by simp
      moreover have "\<not> snd (snd (sendEndChunk env s))"
        using False t None by (simp add: sendEndChunk_def Let_def)
      ultimately show ?thesis by blast
    next
      case (Some tcs)
      show ?thesis
      proof (cases "snd (end_tool_chunks 0 tcs)")
        case True
        with False t Some show ?thesis
          by (simp add: sendEndChunk_def Let_def end_tool_chunks_no_terminal)
      next
        case nf: False
        have "fst (sendEndChunk env s) =
              fst (end_tool_chunks 0 tcs) @ [Chunk EmptyDelta (Some ''tool_calls'') None, DONE]"
          using False t Some nf by (simp add: sendEndChunk_def createOpenAIResponseChunk_def Let_def)
        moreover have "\<not> snd (snd (sendEndChunk env s))"
          using False t Some nf by (simp add: sendEndChunk_def Let_def)
        ultimately show ?thesis using end_tool_chunks_no_terminal by blast
      qed
    qed
  qed
qed


lemma closed_once_prepend:
  "terminals o1 = [] \<Longrightarrow> closed_once o2 \<Longrightarrow> closed_once (o1 @ o2)"
  unfolding closed_once_def
proof -
  assume a: "terminals o1 = []"
    and "\<exists>pre r u. o2 = pre @ [Chunk EmptyDelta (Some r) u, DONE] \<and> terminals pre = []"
  then obtain pre r u where "o2 = pre @ [Chunk EmptyDelta (Some r) u, DONE]" "terminals pre = []"
    by blast
  with a have "o1 @ o2 = (o1 @ pre) @ [Chunk EmptyDelta (Some r) u, DONE] \<and> terminals (o1 @ pre) = []"
    by simp
  then show "\<exists>pre r u. o1 @ o2 = pre @ [Chunk EmptyDelta (Some r) u, DONE] \<and> terminals pre = []"
    by blast
qed

lemma processMultipleToolCalls_closed:
  "terminals (fst (processMultipleToolCalls env s)) = [] \<or>
   (closed_once (fst (processMultipleToolCalls env s))
      \<and> streamEnded (snd (processMultipleToolCalls env s)))"
  using processMultipleToolCalls_shape [of env s] unfolding closed_once_def by auto

lemma sendEndChunk_closed:
  "terminals (fst (sendEndChunk env s)) = [] \<or>
   (closed_once (fst (sendEndChunk env s)) \<and> \<not> snd (snd (sendEndChunk env s)))"
  using sendEndChunk_shape [of env s] unfolding closed_once_def by auto

lemma handle_loop_closed:
  "terminals (fst (handle_loop env s us fault)) = [] \<or>
   (closed_once (fst (handle_loop env s us fault))
      \<and> streamEnded (fst (snd (handle_loop env s us fault))))"
proof (induction us arbitrary: s)
  case Nil
  show ?case by simp
next
  case (Cons u us)
  let ?r1 = "processContent env s u False"
  let ?s1 = "snd ?r1"
  have o1: "terminals (fst ?r1) = []" by (rule processContent_no_terminal)
  show ?case
  proof (cases "hasError u")
    case True
    have "closed_once (handleUpstreamError (getError u))"
      unfolding closed_once_def handleUpstreamError_def createOpenAIResponseChunk_def
      by (metis append_Nil terminals_simps(1))
    with True show ?thesis by simp
  next
    case ne: False
    show ?thesis
    proof (cases "streamEnded ?s1")
      case True
      with ne o1 show ?thesis by (simp add: Let_def)
    next
      case live: False
      show ?thesis
      proof (cases "(toolCallFinishReceived ?s1 \<and> phase (data u) \<noteq> ''tool_call'' \<and> hasTools ?s1
                    \<and> toolCallFragments ?s1 \<noteq> []) \<or>
                    ((done_flag (data u) \<or> phase (data u) = ''done'') \<and> hasTools ?s1
                       \<and> toolCallFragments ?s1 \<noteq> [])")
        case True
        then have eq: "handle_loop env s (u # us) fault =
            (fst ?r1 @ fst (processMultipleToolCalls env ?s1),
             snd (processMultipleToolCalls env ?s1), False)"
          using ne live by (auto simp: Let_def)
        show ?thesis
          unfolding eq using processMultipleToolCalls_closed [of env ?s1] o1
          by (auto intro: closed_once_prepend)
      next
        case nopm: False
        show ?thesis
        proof (cases "done_flag (data u) \<or> phase (data u) = ''done''")
          case True
          let ?r2 = "sendEndChunk env ?s1"
          from True nopm ne live have eq: "handle_loop env s (u # us) fault =
             (if snd (snd ?r2) then (fst ?r1 @ fst ?r2, fst (snd ?r2), True)
              else (fst ?r1 @ fst ?r2, (fst (snd ?r2))\<lparr>streamEnded := True\<rparr>, False))"
            by (auto simp: Let_def)
          show ?thesis
            unfolding eq using sendEndChunk_closed [of env ?s1] o1
            by (auto intro: closed_once_prepend)
        next
          case False
          with nopm ne live have eq: "handle_loop env s (u # us) fault =
             (fst ?r1 @ fst (handle_loop env ?s1 us fault), snd (handle_loop env ?s1 us fault))"
            by (auto simp: Let_def)
          show ?thesis
            unfolding eq using Cons.IH [of ?s1] o1
            by (auto intro: closed_once_prepend)
        qed
      qed
    qed
  qed
qed

text \<open>
  Claim C1. Whatever the upstream call gives (a failure, an error status, any payloads,
  a fault of the iteration at any point), the output of a streaming run holds no
  terminal item at all, or it ends with one finish chunk followed by the sentinel and
  holds no other terminal item; and \<^verbatim>\<open>_sendEndChunk\<close> on a run that is already closed
  yields nothing and leaves the state as it is.
\<close>

theorem at_most_one_terminal_sequence:
  "(terminals (fst (handle env tools up)) = [] \<or>
    (\<exists>pre r u. fst (handle env tools up) = pre @ [Chunk EmptyDelta (Some r) u, DONE]
        \<and> terminals pre = []))
   \<and> (streamEnded s \<longrightarrow> sendEndChunk env s = ([], s, False))"
proof -
  have "terminals (fst (handle env tools up)) = [] \<or> closed_once (fst (handle env tools up))"
  proof (cases up)
    case CallFails
    then show ?thesis by (simp add: handle_def)
  next
    case StatusNotOk
    then show ?thesis by (simp add: handle_def)
  next
    case (Stream us fault)
    let ?r = "handle_loop env (StreamResponseHandler tools) us fault"
    let ?caught = "if snd (snd ?r) \<and> \<not> streamEnded (fst (snd ?r))
                   then [createOpenAIResponseChunk EmptyDelta (Some ''stop''), DONE] else []"
    have out: "fst (handle env tools up) =
         [createOpenAIResponseChunk (RoleDelta ''assistant'') None] @ (fst ?r @ ?caught)"
      using Stream by (simp add: handle_def Let_def)
    have role: "terminals [createOpenAIResponseChunk (RoleDelta ''assistant'') None] = []"
      by (simp add: createOpenAIResponseChunk_def)
    from handle_loop_closed [of env "StreamResponseHandler tools" us fault]
    have "terminals (fst ?r @ ?caught) = [] \<or> closed_once (fst ?r @ ?caught)"
    proof
      assume t: "terminals (fst ?r) = []"
      show ?thesis
      proof (cases "snd (snd ?r) \<and> \<not> streamEnded (fst (snd ?r))")
        case True
        then have "fst ?r @ ?caught = fst ?r @ [Chunk EmptyDelta (Some ''stop'') None, DONE]"
          by (simp add: createOpenAIResponseChunk_def)
        with t have "closed_once (fst ?r @ ?caught)"
          unfolding closed_once_def by blast
        then show ?thesis ..
      next
        case False
        with t show ?thesis by auto
      qed
    next
      assume "closed_once (fst ?r) \<and> streamEnded (fst (snd ?r))"
      then show ?thesis by simp
    qed
    then show ?thesis
      using role by (auto simp only: out terminals_simps(3) intro: closed_once_prepend)
  qed
  then show ?thesis
    by (auto simp: closed_once_def sendEndChunk_ended)
qed

text \<open>
  An instance of C1: the run over an answer payload and a done payload closes once with
  the finish reason \<^verbatim>\<open>stop\<close>, and a later \<^verbatim>\<open>_sendEndChunk\<close> on the closed run does nothing.
\<close>

theorem at_most_one_terminal_sequence_witness:
  "streamEnded ((StreamResponseHandler False)\<lparr>streamEnded := True\<rparr>)
   \<and> sendEndChunk example_env ((StreamResponseHandler False)\<lparr>streamEnded := True\<rparr>) =
       ([], (StreamResponseHandler False)\<lparr>streamEnded := True\<rparr>, False)
   \<and> fst (handle example_env False
            (Stream [plain_payload ''answer'' ''Hi'' [], done_payload] False)) =
       [Chunk (RoleDelta ''assistant'') None None, Chunk (ContentDelta ''Hi'') None None]
       @ [Chunk EmptyDelta (Some ''stop'') None, DONE]"
proof -
  have e: "streamEnded ((StreamResponseHandler False)\<lparr>streamEnded := True\<rparr>)" by simp
  have h: "fst (handle example_env False
                 (Stream [plain_payload ''answer'' ''Hi'' [], done_payload] False)) =
       [Chunk (RoleDelta ''assistant'') None None, Chunk (ContentDelta ''Hi'') None None]
       @ [Chunk EmptyDelta (Some ''stop'') None, DONE]"
    by code_simp
  from at_most_one_terminal_sequence
         [of example_env False "Stream [plain_payload ''answer'' ''Hi'' [], done_payload] False"
             "(StreamResponseHandler False)\<lparr>streamEnded := True\<rparr>"] e
  have "sendEndChunk example_env ((StreamResponseHandler False)\<lparr>streamEnded := True\<rparr>) =
       ([], (StreamResponseHandler False)\<lparr>streamEnded := True\<rparr>, False)"
    by blast
  with e h show ?thesis by blast
qed

text \<open>
  Claim C7, at two answer payloads that both carry \<^verbatim>\<open>edit_content\<close> with the closing
  marker: the text behind the marker of the second payload is emitted as content too.
  The flag \<^verbatim>\<open>sentInitialAnswer\<close> is set in the callee's copy only, so the second payload
  is treated as initial again.
\<close>

theorem initial_answer_repeated:
  "fst (handle example_env False
         (Stream [plain_payload ''answer'' [] ''p</details>A'',
                  plain_payload ''answer'' [] ''q</details>B'', done_payload] False)) =
     [Chunk (RoleDelta ''assistant'') None None,
      Chunk (ContentDelta ''A'') None None,
      Chunk (ContentDelta ''B'') None None,
      Chunk EmptyDelta (Some ''stop'') None, DONE]"
  by code_simp

lemma processContent_tool_call:
  "phase (data u) = ''tool_call'' \<Longrightarrow>
     fst (processContent env s u b) = [] \<and> hasTools (snd (processContent env s u b))"
  by (simp add: processContent_def Let_def)

lemma processContent_hasTools:
  "hasTools s \<Longrightarrow> hasTools (snd (processContent env s u b))"
  by (simp add: processContent_def Let_def)

lemma processMultipleToolCalls_hasTools:
  "hasTools s \<Longrightarrow> hasTools (snd (processMultipleToolCalls env s))"
  by (simp add: processMultipleToolCalls_def Let_def)

lemma sendEndChunk_hasTools:
  "hasTools s \<Longrightarrow> hasTools (fst (snd (sendEndChunk env s)))"
  by (simp add: sendEndChunk_def Let_def split: option.splits)

lemma handle_loop_hasTools:
  "hasTools s \<Longrightarrow> hasTools (fst (snd (handle_loop env s us fault)))"
proof (induction us arbitrary: s)
  case Nil
  then show ?case by simp
next
  case (Cons u us)
  let ?s1 = "snd (processContent env s u False)"
  have h1: "hasTools ?s1" using Cons.prems by (rule processContent_hasTools)
  from h1 have "hasTools (snd (processMultipleToolCalls env ?s1))"
    by (rule processMultipleToolCalls_hasTools)
  moreover from h1 have "hasTools (fst (snd (sendEndChunk env ?s1)))"
    by (rule sendEndChunk_hasTools)
  moreover from h1 have "hasTools (fst (snd (handle_loop env ?s1 us fault)))"
    by (rule Cons.IH)
  ultimately show ?case
    using Cons.prems h1 by (simp add: Let_def)
qed

lemma processContent_answer_buffered:
  "hasTools s \<Longrightarrow> phase (data u) = ''answer'' \<Longrightarrow>
   fst (processContent env s u b) = [] \<and>
   bufferedContent (snd (processContent env s u b)) =
     bufferedContent s @ (if truthy (finish_reason (data u)) then [] else payload_content u)"
  by (simp add: processContent_def Let_def payload_content_def)

lemma handle_loop_tool_call:
  assumes "\<not> hasError u" "phase (data u) = ''tool_call''"
  shows "hasTools (fst (snd (handle_loop env s (u # us) fault)))"
proof -
  let ?s1 = "snd (processContent env s u False)"
  have h1: "hasTools ?s1" using assms(2) by (simp add: processContent_tool_call)
  from h1 have "hasTools (snd (processMultipleToolCalls env ?s1))"
    by (rule processMultipleToolCalls_hasTools)
  moreover from h1 have "hasTools (fst (snd (sendEndChunk env ?s1)))"
    by (rule sendEndChunk_hasTools)
  moreover from h1 have "hasTools (fst (snd (handle_loop env ?s1 us fault)))"
    by (rule handle_loop_hasTools)
  ultimately show ?thesis
    using assms h1 by (simp add: Let_def)
qed

text \<open>
  Claim C10 as it is stated fails in two places. In tool mode the answer payload that
  carries the text \<^verbatim>\<open>Hi\<close> together with the finish reason \<^verbatim>\<open>stop\<close> emits nothing and
  leaves the buffer as it is: lines 295 to 302 return before the text is appended, in
  the call and in the run that receives a \<^verbatim>\<open>tool_call\<close> payload before it. And a payload
  of phase \<^verbatim>\<open>tool_call\<close> that carries an error closes the run at the error check, before
  \<^verbatim>\<open>_processContent\<close>, and the run is not switched into tool mode.
\<close>

theorem finish_reason_text_dropped:
  "hasTools tool_mode_state
   \<and> phase (data finish_payload) = ''answer'' \<and> payload_content finish_payload = ''Hi''
   \<and> fst (processContent example_env tool_mode_state finish_payload False) = []
   \<and> bufferedContent (snd (processContent example_env tool_mode_state finish_payload False)) =
       bufferedContent tool_mode_state
   \<and> bufferedContent (snd (processContent example_env tool_mode_state finish_payload False)) \<noteq>
       bufferedContent tool_mode_state @ ''Hi''
   \<and> fst (handle example_env False
            (Stream [tool_call_payload 0 ''<glm_block'', finish_payload] False)) =
       [Chunk (RoleDelta ''assistant'') None None]
   \<and> bufferedContent (snd (handle example_env False
            (Stream [tool_call_payload 0 ''<glm_block'', finish_payload] False))) = []
   \<and> phase (data error_tool_call_payload) = ''tool_call''
   \<and> \<not> hasTools (fst (snd (handle_loop example_env (StreamResponseHandler False)
                               [error_tool_call_payload] False)))"
  by code_simp

text \<open>
  Claim C10, amended. A payload of phase \<^verbatim>\<open>tool_call\<close> that \<^verbatim>\<open>_processContent\<close> receives
  emits nothing and leaves the run in tool mode, whatever the run was constructed with,
  and when the payload carries no error the state at the end of the loop is in tool
  mode; tool mode, once on, stays on through every later payload and to the end of the
  loop; and in tool mode an answer payload emits nothing, its text is appended to the
  buffer when the payload carries no finish reason, and nothing is appended when it
  carries one.
\<close>

theorem tool_call_phase_switches_tool_mode:
  "(phase (data u) = ''tool_call'' \<longrightarrow>
      fst (processContent env s u b) = [] \<and> hasTools (snd (processContent env s u b)))
   \<and> (phase (data u) = ''tool_call'' \<and> \<not> hasError u \<longrightarrow>
        hasTools (fst (snd (handle_loop env s (u # us) fault))))
   \<and> (hasTools s \<longrightarrow>
        hasTools (snd (processContent env s q b))
        \<and> hasTools (fst (snd (handle_loop env s us fault))))
   \<and> (hasTools s \<and> phase (data q) = ''answer'' \<longrightarrow>
        fst (processContent env s q b) = []
        \<and> bufferedContent (snd (processContent env s q b)) =
            bufferedContent s @ (if truthy (finish_reason (data q)) then [] else payload_content q))"
  using processContent_tool_call [of u env s b] handle_loop_tool_call [of u env s us fault]
    processContent_hasTools [of s env q b] handle_loop_hasTools [of s env us fault]
    processContent_answer_buffered [of s q env b]
  by blast

text \<open>
  An instance of the amended C10: a run constructed without tools receives a \<^verbatim>\<open>tool_call\<close> payload
  and then the answer text \<^verbatim>\<open>Hi\<close>, which goes to the buffer.
\<close>

theorem tool_call_phase_switches_tool_mode_witness:
  "phase (data (tool_call_payload 0 ''<glm_block'')) = ''tool_call''
   \<and> \<not> hasError (tool_call_payload 0 ''<glm_block'')
   \<and> \<not> hasTools (StreamResponseHandler False)
   \<and> hasTools (snd (processContent example_env (StreamResponseHandler False)
                      (tool_call_payload 0 ''<glm_block'') False))
   \<and> phase (data (plain_payload ''answer'' ''Hi'' [])) = ''answer''
   \<and> processContent example_env
        (snd (processContent example_env (StreamResponseHandler False)
                (tool_call_payload 0 ''<glm_block'') False))
        (plain_payload ''answer'' ''Hi'' []) False =
      ([], (snd (processContent example_env (StreamResponseHandler False)
                   (tool_call_payload 0 ''<glm_block'') False))\<lparr>bufferedContent := ''Hi''\<rparr>)"
proof -
  let ?u = "tool_call_payload 0 ''<glm_block''"
  let ?q = "plain_payload ''answer'' ''Hi'' []"
  let ?s = "StreamResponseHandler False"
  let ?s' = "snd (processContent example_env ?s ?u False)"
  have p: "phase (data ?u) = ''tool_call''" "\<not> hasError ?u" "\<not> hasTools ?s"
    "phase (data ?q) = ''answer''"
    by code_simp+
  from tool_call_phase_switches_tool_mode [of ?u example_env ?s False "[]" False ?q] p
  have t: "hasTools ?s'" by blast
  from tool_call_phase_switches_tool_mode [of ?u example_env ?s' False "[]" False ?q] t p
  have "fst (processContent example_env ?s' ?q False) = []"
    and "bufferedContent (snd (processContent example_env ?s' ?q False)) =
           bufferedContent ?s' @ (if truthy (finish_reason (data ?q)) then []
                                  else payload_content ?q)"
    by blast+
  moreover have "processContent example_env ?s' ?q False =
      (fst (processContent example_env ?s' ?q False), ?s'\<lparr>bufferedContent := ''Hi''\<rparr>)"
    by code_simp
  ultimately have "processContent example_env ?s' ?q False = ([], ?s'\<lparr>bufferedContent := ''Hi''\<rparr>)"
    by simp
  with p t show ?thesis by blast
qed

section \<open>Properties of the fragment reassembly\<close>

lemma map_of_replace:
  "map_of (map (\<lambda>(k', v'). if k' = k then (k, v) else (k', v')) m) x =
     (if x = k then (if k \<in> fst ` set m then Some v else None) else map_of m x)"
proof (induction m)
  case Nil
  show ?case by simp
next
  case (Cons p m)
  obtain a b where p: "p = (a, b)" by (cases p)
  show ?case
  proof (cases "a = k")
    case True
    with Cons.IH show ?thesis by (cases "x = k") (simp_all add: p)
  next
    case False
    with Cons.IH show ?thesis by (cases "x = k") (simp_all add: p)
  qed
qed

lemma map_of_map_set: "map_of (map_set m k v) = (map_of m)(k \<mapsto> v)"
proof (cases "k \<in> fst ` set m")
  case True
  then have "map_of (map_set m k v) x = ((map_of m)(k \<mapsto> v)) x" for x
    by (simp add: map_set_def map_of_replace)
  then show ?thesis by (rule ext)
next
  case False
  then have "map_of m k = None" by (simp add: map_of_eq_None_iff)
  with False have "map_of (map_set m k v) x = ((map_of m)(k \<mapsto> v)) x" for x
    by (simp add: map_set_def map_add_def split: option.splits)
  then show ?thesis by (rule ext)
qed

lemma keys_map_set: "map fst (map_set m k v) = (if k \<in> fst ` set m then map fst m else map fst m @ [k])"
proof -
  have "map fst (map (\<lambda>(k', v'). if k' = k then (k, v) else (k', v')) m) = map fst m"
    by (induction m) auto
  then show ?thesis by (simp add: map_set_def)
qed

lemma distinct_map_set: "distinct (map fst m) \<Longrightarrow> distinct (map fst (map_set m k v))"
  by (auto simp: keys_map_set)

lemma set_keys_map_set: "set (map fst (map_set m k v)) = insert k (set (map fst m))"
  by (auto simp: keys_map_set)

lemma processContent_fragment:
  "toolCallFragments (snd (processContent env s (tool_call_payload i t) False)) =
     store_fragment (toolCallFragments s) (i, t)"
  by (simp add: processContent_def tool_call_payload_def store_fragment_def Let_def)

lemma feed_fragments_store:
  "toolCallFragments (feed_fragments env s fs) = foldl store_fragment (toolCallFragments s) fs"
  unfolding feed_fragments_def
proof (induction fs arbitrary: s)
  case Nil
  show ?case by simp
next
  case (Cons f fs)
  obtain i t where f: "f = (i, t)" by (cases f)
  show ?case by (simp add: f Cons.IH processContent_fragment)
qed

lemma map_of_store_fragment:
  "map_of (store_fragment m f) =
     (if snd f \<noteq> [] then (map_of m)(fst f \<mapsto> snd f) else map_of m)"
  by (simp add: store_fragment_def map_of_map_set)

lemma keys_store_fragment:
  "set (map fst (store_fragment m f)) =
     (if snd f \<noteq> [] then insert (fst f) (set (map fst m)) else set (map fst m))"
  by (simp add: store_fragment_def set_keys_map_set del: set_map)

lemma distinct_store_fragment:
  "distinct (map fst m) \<Longrightarrow> distinct (map fst (store_fragment m f))"
  by (simp add: store_fragment_def distinct_map_set)

lemma map_of_store:
  "distinct (map fst fs) \<Longrightarrow>
   map_of (foldl store_fragment m fs) =
     (\<lambda>k. case map_of (filter (\<lambda>f. snd f \<noteq> []) fs) k of Some t \<Rightarrow> Some t | None \<Rightarrow> map_of m k)"
proof (induction fs arbitrary: m)
  case Nil
  show ?case by simp
next
  case (Cons f fs)
  from Cons.prems have notin: "fst f \<notin> fst ` set fs" and d: "distinct (map fst fs)" by auto
  from notin have "fst f \<notin> fst ` set (filter (\<lambda>f. snd f \<noteq> []) fs)" by auto
  then have none: "map_of (filter (\<lambda>f. snd f \<noteq> []) fs) (fst f) = None"
    by (simp add: map_of_eq_None_iff)
  have "map_of (foldl store_fragment m (f # fs)) =
        (\<lambda>k. case map_of (filter (\<lambda>f. snd f \<noteq> []) fs) k of
                Some t \<Rightarrow> Some t
              | None \<Rightarrow> map_of (store_fragment m f) k)"
    using Cons.IH [OF d, of "store_fragment m f"] by simp
  also have "\<dots> = (\<lambda>k. case map_of (filter (\<lambda>f. snd f \<noteq> []) (f # fs)) k of
                Some t \<Rightarrow> Some t
              | None \<Rightarrow> map_of m k)"
  proof (rule ext)
    fix k
    show "(case map_of (filter (\<lambda>f. snd f \<noteq> []) fs) k of
             Some t \<Rightarrow> Some t
           | None \<Rightarrow> map_of (store_fragment m f) k) =
          (case map_of (filter (\<lambda>f. snd f \<noteq> []) (f # fs)) k of
             Some t \<Rightarrow> Some t
           | None \<Rightarrow> map_of m k)"
      using none by (cases f) (auto simp: map_of_store_fragment split: option.splits)
  qed
  finally show ?case .
qed

lemma keys_store:
  "set (map fst (foldl store_fragment m fs)) =
     set (map fst m) \<union> fst ` set (filter (\<lambda>f. snd f \<noteq> []) fs)"
proof (induction fs arbitrary: m)
  case Nil
  show ?case by simp
next
  case (Cons f fs)
  have "set (map fst (foldl store_fragment m (f # fs))) =
        set (map fst (store_fragment m f)) \<union> fst ` set (filter (\<lambda>f. snd f \<noteq> []) fs)"
    using Cons.IH [of "store_fragment m f"] by simp
  also have "\<dots> = set (map fst m) \<union> fst ` set (filter (\<lambda>f. snd f \<noteq> []) (f # fs))"
    by (simp only: keys_store_fragment) auto
  finally show ?case .
qed

lemma distinct_store:
  "distinct (map fst m) \<Longrightarrow> distinct (map fst (foldl store_fragment m fs))"
  by (induction fs arbitrary: m) (simp_all add: distinct_store_fragment)

lemma fragments_fullContent_cong:
  assumes "mset (map fst A) = mset (map fst B)" "map_of A = map_of B"
  shows "fragments_fullContent A = fragments_fullContent B"
proof -
  have "sort (map fst A) = sort (map fst B)"
    using assms(1) by (intro properties_for_sort) simp_all
  then show ?thesis by (simp add: fragments_fullContent_def map_keys_def map_get_def assms(2))
qed

lemma store_permutation:
  assumes "distinct (map fst fs)" "mset fs' = mset fs" "distinct (map fst m)"
  shows "fragments_fullContent (foldl store_fragment m fs') =
         fragments_fullContent (foldl store_fragment m fs)"
proof (rule fragments_fullContent_cong)
  have d': "distinct (map fst fs')"
    using assms(1,2) by (metis distinct_map mset_eq_setD mset_eq_imp_distinct_iff mset_map)
  have s: "set fs' = set fs" using assms(2) by (rule mset_eq_setD)
  let ?ne = "\<lambda>f :: int \<times> string. snd f \<noteq> []"
  have "distinct (map fst (filter ?ne fs))" "distinct (map fst (filter ?ne fs'))"
    using assms(1) d' by (simp_all add: distinct_map_filter)
  moreover have "set (filter ?ne fs') = set (filter ?ne fs)" using s by simp
  ultimately have "map_of (filter ?ne fs') = map_of (filter ?ne fs)"
    by (simp add: map_of_inject_set)
  then show "map_of (foldl store_fragment m fs') = map_of (foldl store_fragment m fs)"
    by (simp add: map_of_store assms(1) d')
  have "set (map fst (foldl store_fragment m fs')) = set (map fst (foldl store_fragment m fs))"
    by (simp add: keys_store s del: set_map)
  moreover have "distinct (map fst (foldl store_fragment m fs'))"
    "distinct (map fst (foldl store_fragment m fs))"
    using assms(3) by (simp_all add: distinct_store)
  ultimately show "mset (map fst (foldl store_fragment m fs')) =
                   mset (map fst (foldl store_fragment m fs))"
    using set_eq_iff_mset_eq_distinct
            [of "map fst (foldl store_fragment m fs')" "map fst (foldl store_fragment m fs)"]
    by blast
qed

lemma store_fresh:
  "distinct (map fst m @ map fst fs) \<Longrightarrow>
   foldl store_fragment m fs = m @ filter (\<lambda>f. snd f \<noteq> []) fs"
proof (induction fs arbitrary: m)
  case Nil
  show ?case by simp
next
  case (Cons f fs)
  obtain i t where f: "f = (i, t)" by (cases f)
  show ?case
  proof (cases "t = []")
    case True
    with Cons f show ?thesis by (simp add: store_fragment_def)
  next
    case False
    from Cons.prems f have "i \<notin> fst ` set m" by auto
    then have m: "map_set m i t = m @ [(i, t)]" by (simp add: map_set_def)
    from Cons.prems f have "distinct (map fst (m @ [(i, t)]) @ map fst fs)" by auto
    from Cons.IH [OF this] False m show ?thesis by (simp add: f store_fragment_def)
  qed
qed

lemma sorted_contents:
  assumes "distinct (map fst F)"
  shows "map (\<lambda>index. case map_of F index of Some c \<Rightarrow> c | None \<Rightarrow> []) (sort (map fst F)) =
         map snd (sort_key fst F)"
proof -
  have "sort (map fst F) = map fst (sort_key fst F)"
    by (intro properties_for_sort) simp_all
  moreover have "(case map_of F (fst p) of Some c \<Rightarrow> c | None \<Rightarrow> []) = snd p"
    if "p \<in> set (sort_key fst F)" for p
  proof -
    from that have "(fst p, snd p) \<in> set F" by simp
    with assms have "map_of F (fst p) = Some (snd p)" by (rule map_of_is_SomeI)
    then show ?thesis by simp
  qed
  ultimately show ?thesis by simp
qed

text \<open>
  Claim C4. For fragments with distinct indices, a new run that is fed them in any
  order resolves the same invocations as the run that is fed them in the given order,
  and these are the invocations that the specification describes: the fragments that
  carry text sorted by index, glued, the first block kept and scanned.
\<close>

theorem reassembly_order_independent:
  assumes "distinct (map fst fs)" and "mset fs' = mset fs"
  shows "resolveToolCalls env
           (toolCallFragments (feed_fragments env (StreamResponseHandler tools) fs')) =
         resolveToolCalls env
           (toolCallFragments (feed_fragments env (StreamResponseHandler tools) fs))
       \<and> resolveToolCalls env
           (toolCallFragments (feed_fragments env (StreamResponseHandler tools) fs)) =
         reassemble_sorted env (filter (\<lambda>f. snd f \<noteq> []) fs)"
proof -
  let ?ne = "\<lambda>f :: int \<times> string. snd f \<noteq> []"
  have init: "toolCallFragments (StreamResponseHandler tools) = []"
    by (simp add: StreamResponseHandler_def)
  have "fragments_fullContent (foldl store_fragment [] fs') =
        fragments_fullContent (foldl store_fragment [] fs)"
    using assms by (intro store_permutation) simp_all
  then have 1: ?thesis if "resolveToolCalls env (foldl store_fragment [] fs) =
        reassemble_sorted env (filter ?ne fs)"
    using that by (simp add: resolveToolCalls_def feed_fragments_store init)
  have F: "foldl store_fragment [] fs = filter ?ne fs"
    using assms(1) store_fresh [of "[]" fs] by simp
  have "distinct (map fst (filter ?ne fs))"
    using assms(1) by (simp add: distinct_map_filter)
  then have "fragments_fullContent (filter ?ne fs) =
      join ''\<newline>'' (take 1 (glue_blocks (map snd (sort_key fst (filter ?ne fs)))))"
    by (simp add: fragments_fullContent_def map_keys_def map_get_def sorted_contents)
  then have "resolveToolCalls env (foldl store_fragment [] fs) =
        reassemble_sorted env (filter ?ne fs)"
    by (simp add: F resolveToolCalls_def reassemble_sorted_def)
  then show ?thesis by (rule 1)
qed

text \<open>
  An instance of C4: the two fragments of one block, fed last fragment first, resolve
  to the call \<^verbatim>\<open>call_1\<close> of \<^verbatim>\<open>f\<close> with the arguments \<^verbatim>\<open>{"x":1}\<close>.
\<close>

theorem reassembly_order_independent_witness:
  "distinct (map fst example_fragments)
   \<and> mset (rev example_fragments) = mset example_fragments
   \<and> resolveToolCalls example_env
        (toolCallFragments
           (feed_fragments example_env (StreamResponseHandler True) (rev example_fragments))) =
      [\<lparr>tool_id = JString ''call_1'', tool_name = JString ''f'', tool_arguments = JString plain_args\<rparr>]"
proof -
  have d: "distinct (map fst example_fragments)" by code_simp
  have m: "mset (rev example_fragments) = mset example_fragments" by simp
  have r: "reassemble_sorted example_env (filter (\<lambda>f. snd f \<noteq> []) example_fragments) =
      [\<lparr>tool_id = JString ''call_1'', tool_name = JString ''f'', tool_arguments = JString plain_args\<rparr>]"
    by code_simp
  from reassembly_order_independent [OF d m, of example_env True] r d m
  show ?thesis by simp
qed

lemma code_unit_range: "0 \<le> code_unit c \<and> code_unit c < 256"
proof -
  have "code_unit c = int (of_char c)" by (simp add: code_unit_def of_nat_of_char)
  then show ?thesis by simp
qed

lemma narrow_code_units: "narrow (code_units t)"
  by (simp add: narrow_def code_units_def list_all_iff code_unit_range)

lemma mk_string_code_units: "mk_string (code_units t) = JString t"
proof -
  have "map char_of (code_units t) = t"
    by (simp add: code_units_def code_unit_def comp_def)
  then show ?thesis by (simp add: mk_string_def narrow_code_units)
qed

lemma string_units_mk_string: "string_units (mk_string a) = Some a"
proof (cases "narrow a")
  case True
  then have "\<forall>u \<in> set a. code_unit (char_of u) = u"
    by (auto simp: narrow_def list_all_iff code_unit_def)
  then have "code_units (map char_of a) = a"
    by (simp add: code_units_def map_idI)
  with True show ?thesis by (simp add: mk_string_def)
next
  case False
  then show ?thesis by (simp add: mk_string_def)
qed

lemma JSON_parse_units_Nil: "JSON_parse_units [] = None"
  by (simp add: JSON_parse_units_def skip_ws_def)

lemma JSON_parse_units_quoted:
  assumes "startsWith a [code_unit dquote]" and "JSON_parse_units a = Some w"
  shows "\<exists>u. w = mk_string u"
proof -
  from assms(1) obtain cs where a: "a = code_unit dquote # cs"
    by (cases a) (auto simp: startsWith_def)
  have q: "code_unit dquote = 34" by (simp add: code_unit_def dquote_def)
  have "\<not> json_ws (code_unit dquote)" by (simp add: json_ws_def q)
  then have sk: "skip_ws a = code_unit dquote # cs" by (simp add: a skip_ws_def)
  have d: "code_unit dquote \<noteq> code_unit CHR ''{''" "code_unit dquote \<noteq> code_unit CHR ''[''"
    by (simp_all add: code_unit_def dquote_def)
  have "parse_value (Suc (length a)) a =
        map_option (\<lambda>(u, t). (mk_string u, t)) (json_string [] cs)"
    using sk d by simp
  with assms(2) show ?thesis
    by (auto simp: JSON_parse_units_def split: option.splits if_splits)
qed

text \<open>
  Claim C5 as it is stated fails at the arguments text \<^verbatim>\<open>"abc"\<close>: it is valid JSON text
  (a string), yet it is not used unchanged; it is taken for the quoted form, its content
  \<^verbatim>\<open>abc\<close> is not JSON, and the arguments become \<^verbatim>\<open>{}\<close>.
\<close>

theorem quoted_json_not_passed_through:
  \<open>JSON_parse ''"abc"'' = Some (JString ''abc'')
   \<and> finalArgs_of (JString ''"abc"'') = JString ''{}''
   \<and> finalArgs_of (JString ''"abc"'') \<noteq> JString ''"abc"''\<close>
  by code_simp

text \<open>
  Claim C5, amended. For the arguments value of a block, a string with the code units
  \<open>a\<close>: text that is valid JSON and not of the quoted form (it does not both start and
  end with a double quote) is used unchanged; text of the quoted form that parses does
  so as a string, which is the text unescaped once, and that string is used when it is
  valid JSON, \<^verbatim>\<open>{}\<close> otherwise; text that does not parse yields \<^verbatim>\<open>{}\<close>; a value that is not
  a string yields \<^verbatim>\<open>{}\<close>. A text \<open>t\<close> of the translators is the string with the code
  units of \<open>t\<close>, and the arguments of a resolved block are computed so from its
  \<^verbatim>\<open>metadata.arguments\<close>.
\<close>

theorem arguments_normalised:
  "(\<not> quoted a \<and> JSON_parse_units a \<noteq> None \<longrightarrow> finalArgs_of (mk_string a) = mk_string a)
   \<and> (quoted a \<and> JSON_parse_units a = Some w \<longrightarrow>
        (\<exists>u. w = mk_string u
           \<and> finalArgs_of (mk_string a) =
               (if JSON_parse_units u \<noteq> None then mk_string u else JString ''{}'')))
   \<and> (JSON_parse_units a = None \<longrightarrow> finalArgs_of (mk_string a) = JString ''{}'')
   \<and> (string_units v = None \<longrightarrow> finalArgs_of v = JString ''{}'')
   \<and> (JSON_parse t = JSON_parse_units (code_units t) \<and> mk_string (code_units t) = JString t)
   \<and> (block_tool now n b = Some tc \<longrightarrow>
        (\<exists>parsed. JSON_parse b = Some parsed
           \<and> tool_arguments tc =
               finalArgs_of (js_or (js_get (metadata_of parsed) ''arguments'') (JString ''{}''))))"
proof (intro conjI impI)
  assume h: "\<not> quoted a \<and> JSON_parse_units a \<noteq> None"
  then have ne: "a \<noteq> []" by (auto simp: JSON_parse_units_Nil)
  show "finalArgs_of (mk_string a) = mk_string a"
  proof (cases "a = code_units ''{}''")
    case True
    then show ?thesis
      by (simp add: finalArgs_of_def string_units_mk_string mk_string_code_units)
  next
    case False
    with h ne show ?thesis
      by (auto simp: finalArgs_of_def string_units_mk_string quoted_def)
  qed
next
  assume q: "quoted a \<and> JSON_parse_units a = Some w"
  then obtain u where u: "w = mk_string u"
    using JSON_parse_units_quoted [of a w] by (auto simp: quoted_def)
  from q have ne: "a \<noteq> []" "a \<noteq> code_units ''{}''"
    by (auto simp: quoted_def startsWith_def code_units_def code_unit_def dquote_def)
  from q u ne have "finalArgs_of (mk_string a) =
      (if JSON_parse_units u \<noteq> None then mk_string u else JString ''{}'')"
    by (auto simp: finalArgs_of_def string_units_mk_string quoted_def)
  with u show "\<exists>u. w = mk_string u
      \<and> finalArgs_of (mk_string a) =
          (if JSON_parse_units u \<noteq> None then mk_string u else JString ''{}'')"
    by blast
next
  assume "JSON_parse_units a = None"
  then show "finalArgs_of (mk_string a) = JString ''{}''"
    by (simp add: finalArgs_of_def string_units_mk_string)
next
  assume "string_units v = None"
  then show "finalArgs_of v = JString ''{}''"
    by (simp add: finalArgs_of_def)
next
  show "JSON_parse t = JSON_parse_units (code_units t)" by (simp add: JSON_parse_def)
next
  show "mk_string (code_units t) = JString t" by (rule mk_string_code_units)
next
  assume "block_tool now n b = Some tc"
  then show "\<exists>parsed. JSON_parse b = Some parsed
      \<and> tool_arguments tc =
          finalArgs_of (js_or (js_get (metadata_of parsed) ''arguments'') (JString ''{}''))"
    by (auto simp: block_tool_def Let_def split: option.splits if_splits)
qed

text \<open>
  An instance of the amended C5: the plain text, the plain text with an escape beyond
  code unit 255, the escaped text, the escaped text that unescapes to a string with a
  code unit beyond 255, text that is not JSON, a value that is not a string, and the
  example block.
\<close>

theorem arguments_normalised_witness:
  "\<not> quoted (code_units plain_args) \<and> JSON_parse plain_args \<noteq> None
   \<and> finalArgs_of (JString plain_args) = JString plain_args
   \<and> \<not> quoted (code_units wide_plain_args) \<and> JSON_parse wide_plain_args \<noteq> None
   \<and> finalArgs_of (JString wide_plain_args) = JString wide_plain_args
   \<and> quoted (code_units escaped_args) \<and> JSON_parse escaped_args = Some (JString plain_args)
   \<and> finalArgs_of (JString escaped_args) = JString plain_args
   \<and> quoted (code_units wide_escaped_args)
   \<and> JSON_parse wide_escaped_args = Some (JWideString wide_unescaped_args)
   \<and> finalArgs_of (JString wide_escaped_args) = JWideString wide_unescaped_args
   \<and> JSON_parse ''{x'' = None \<and> finalArgs_of (JString ''{x'') = JString ''{}''
   \<and> string_units (JObject []) = None \<and> finalArgs_of (JObject []) = JString ''{}''
   \<and> block_tool 0 0 example_block =
       Some \<lparr>tool_id = JString ''call_1'', tool_name = JString ''f'',
             tool_arguments = JString plain_args\<rparr>
   \<and> (\<exists>parsed. JSON_parse example_block = Some parsed
         \<and> JString plain_args =
             finalArgs_of (js_or (js_get (metadata_of parsed) ''arguments'') (JString ''{}'')))"
proof -
  let ?tc = "\<lparr>tool_id = JString ''call_1'', tool_name = JString ''f'',
              tool_arguments = JString plain_args\<rparr>"
  have p: "\<not> quoted (code_units plain_args)" "JSON_parse plain_args \<noteq> None" by code_simp+
  have wp: "\<not> quoted (code_units wide_plain_args)" "JSON_parse wide_plain_args \<noteq> None"
    by code_simp+
  have e: "quoted (code_units escaped_args)" "JSON_parse escaped_args = Some (JString plain_args)"
    by code_simp+
  have we: "quoted (code_units wide_escaped_args)"
    "JSON_parse wide_escaped_args = Some (JWideString wide_unescaped_args)"
    "JSON_parse_units wide_unescaped_args \<noteq> None"
    "mk_string wide_unescaped_args = JWideString wide_unescaped_args"
    by code_simp+
  have b: "JSON_parse ''{x'' = None" by code_simp
  have o: "string_units (JObject []) = None" by simp
  have k: "block_tool 0 0 example_block = Some ?tc" by code_simp
  have c1: "finalArgs_of (mk_string a) = mk_string a"
    if "\<not> quoted a" "JSON_parse_units a \<noteq> None" for a
    using arguments_normalised [of a] that by blast
  have c2: "\<exists>u. w = mk_string u
      \<and> finalArgs_of (mk_string a) =
          (if JSON_parse_units u \<noteq> None then mk_string u else JString ''{}'')"
    if "quoted a" "JSON_parse_units a = Some w" for a w
    using arguments_normalised [of a w] that by blast
  have c3: "finalArgs_of (mk_string a) = JString ''{}''" if "JSON_parse_units a = None" for a
    using arguments_normalised [of a] that by blast
  have c4: "finalArgs_of v = JString ''{}''" if "string_units v = None" for v
    using arguments_normalised [of _ _ v] that by blast
  have c5: "JSON_parse t = JSON_parse_units (code_units t)" "mk_string (code_units t) = JString t"
    for t
    using arguments_normalised [of _ _ _ t] by blast+
  have c6: "\<exists>parsed. JSON_parse b = Some parsed
      \<and> tool_arguments tc =
          finalArgs_of (js_or (js_get (metadata_of parsed) ''arguments'') (JString ''{}''))"
    if "block_tool now n b = Some tc" for now n b tc
    using arguments_normalised [of _ _ _ _ now n b tc] that by blast
  have 1: "finalArgs_of (JString plain_args) = JString plain_args"
    using c1 [of "code_units plain_args"] p by (simp add: c5)
  have 2: "finalArgs_of (JString wide_plain_args) = JString wide_plain_args"
    using c1 [of "code_units wide_plain_args"] wp by (simp add: c5)
  have 3: "finalArgs_of (JString escaped_args) = JString plain_args"
  proof -
    from c2 [of "code_units escaped_args" "JString plain_args"] e
    obtain u where u: "JString plain_args = mk_string u"
      and f: "finalArgs_of (JString escaped_args) =
                (if JSON_parse_units u \<noteq> None then mk_string u else JString ''{}'')"
      by (auto simp: c5)
    from u have "string_units (JString plain_args) = string_units (mk_string u)" by simp
    then have "u = code_units plain_args" by (simp add: string_units_mk_string)
    with p f show ?thesis by (simp add: c5)
  qed
  have 4: "finalArgs_of (JString wide_escaped_args) = JWideString wide_unescaped_args"
  proof -
    from c2 [of "code_units wide_escaped_args" "JWideString wide_unescaped_args"] we
    obtain u where u: "JWideString wide_unescaped_args = mk_string u"
      and f: "finalArgs_of (JString wide_escaped_args) =
                (if JSON_parse_units u \<noteq> None then mk_string u else JString ''{}'')"
      by (auto simp: c5)
    from u have "string_units (JWideString wide_unescaped_args) = string_units (mk_string u)"
      by simp
    then have "u = wide_unescaped_args" by (simp add: string_units_mk_string)
    with we f show ?thesis by simp
  qed
  have 5: "finalArgs_of (JString ''{x'') = JString ''{}''"
    using c3 [of "code_units ''{x''"] b by (simp add: c5)
  have 6: "finalArgs_of (JObject []) = JString ''{}''" using c4 o by blast
  have 7: "\<exists>parsed. JSON_parse example_block = Some parsed
       \<and> JString plain_args =
           finalArgs_of (js_or (js_get (metadata_of parsed) ''arguments'') (JString ''{}''))"
    using c6 [OF k] by simp
  from p wp e we b o k 1 2 3 4 5 6 7 show ?thesis by simp
qed

section \<open>Properties of the aggregate translator\<close>

text \<open>
  Claim C3, at a stream without tool calls whose first payload is of phase \<^verbatim>\<open>other\<close> and
  carries the text \<^verbatim>\<open>X\<close>, followed by the answer text \<^verbatim>\<open>Hi\<close>: the finish reason is
  \<^verbatim>\<open>stop\<close>, but the content is \<^verbatim>\<open>XHi\<close>, not the answer text \<^verbatim>\<open>Hi\<close>. The loop collects the
  \<^verbatim>\<open>delta_content\<close> of every phase, against the comment at line 950 that has
  \<^verbatim>\<open>fullContent\<close> collected in the answer phase only.
\<close>

theorem aggregate_content_other_phase:
  "ns_handle example_env False
     (Stream [plain_payload ''other'' ''X'' [], plain_payload ''answer'' ''Hi'' [],
              done_payload] False) =
   Some (DocumentResponse 200
          \<lparr>message_content = Some ''XHi'', message_tool_calls = None,
           doc_finish_reason = ''stop'', doc_usage = zero_usage\<rparr>)"
  by code_simp

text \<open>
  Claim C6, at a stream whose first payload carries a top-level error: the stream
  translator closes the run at once, the aggregate translator has no error check and
  builds its document from the payloads behind the error.
\<close>

theorem aggregate_ignores_error_payload:
  "hasError error_payload
   \<and> ns_handle example_env False
       (Stream [error_payload, plain_payload ''answer'' ''Hi'' [], done_payload] False) =
     Some (DocumentResponse 200
            \<lparr>message_content = Some ''Hi'', message_tool_calls = None,
             doc_finish_reason = ''stop'', doc_usage = zero_usage\<rparr>)
   \<and> fst (handle example_env False
            (Stream [error_payload, plain_payload ''answer'' ''Hi'' [], done_payload] False)) =
     [Chunk (RoleDelta ''assistant'') None None, Chunk EmptyDelta (Some ''stop'') None, DONE]"
  by code_simp

end
